theory Spec2Isabelle
  imports Complex_Main "HOL-Library.Char_ord" "HOL-Library.List_Lexorder"
begin

section \<open>Data model\<close>

text \<open>
  The program of \<^verbatim>\<open>src/demo.py\<close> works on pandas frames. A frame is modelled
  with what the program can observe of it: the column labels with their dtype, and the
  rows in order, each row carrying its index label (pandas keeps the label of a row when
  rows are dropped or reordered) and one cell per column.

  A cell is an integer, a floating-point number, a text, or the missing value. A
  floating-point number is a real, and the arithmetic of the libraries on floating-point
  numbers is the arithmetic of the reals: the rounding of a sum, a quotient or a square
  root is not modelled. The conversion of an integer into a floating-point number is
  modelled as it is: see \<open>float64_of_int\<close> below.
\<close>

datatype dtype = Int64 | Float64 | Object

datatype cell = I int | F real | S string | NaN

type_synonym row = "nat \<times> cell list"

record frame =
  columns :: "(string \<times> dtype) list"
  rows :: "row list"

text \<open>Exceptions of the Python program, as values.\<close>

datatype error = AttributeError | TypeError | ValueError | KeyError | InvalidIndexError

text \<open>
  \<^verbatim>\<open>data.select_dtypes(include=[object]).columns\<close> and
  \<^verbatim>\<open>data.select_dtypes(include=[float, int]).columns\<close>: the columns are
  identified by their position.
\<close>

definition object_columns :: "frame \<Rightarrow> nat list" where
  "object_columns data = filter (\<lambda>j. snd (columns data ! j) = Object) [0..<length (columns data)]"

definition numerical_columns :: "frame \<Rightarrow> nat list" where
  "numerical_columns data =
     filter (\<lambda>j. snd (columns data ! j) = Float64 \<or> snd (columns data ! j) = Int64)
       [0..<length (columns data)]"

section \<open>The Cleaner\<close>

subsection \<open>Rows: duplicates and missing values\<close>

text \<open>
  \<^verbatim>\<open>data.drop_duplicates()\<close> returns a new frame that keeps, of the rows with
  equal cells, the first one; the index labels play no part in the comparison, and two
  missing values compare equal.
\<close>

fun keep_first :: "cell list list \<Rightarrow> row list \<Rightarrow> row list" where
  "keep_first seen [] = []"
| "keep_first seen (r # rs) =
     (if snd r \<in> set seen then keep_first seen rs else r # keep_first (snd r # seen) rs)"

definition drop_duplicates :: "frame \<Rightarrow> frame" where
  "drop_duplicates data = data\<lparr>rows := keep_first [] (rows data)\<rparr>"

text \<open>\<^verbatim>\<open>data.dropna()\<close> returns a new frame without the rows that hold a missing value.\<close>

definition dropna :: "frame \<Rightarrow> frame" where
  "dropna data = data\<lparr>rows := filter (\<lambda>r. NaN \<notin> set (snd r)) (rows data)\<rparr>"

subsection \<open>Text: spelling correction and character filter\<close>

text \<open>
  A string is a list of characters with the code points 0 to 255; a text with a character
  beyond this range is outside the model. Python's \<^verbatim>\<open>str.split()\<close> and the
  class \<^verbatim>\<open>\s\<close> of \<^verbatim>\<open>re\<close> share one notion of whitespace: in this range
  it is the space, the characters 9 to 13 and 28 to 31, the next-line character 133 and
  the no-break space 160. The letters and digits of the pattern are the ASCII ones.
\<close>

definition is_space :: "char \<Rightarrow> bool" where
  "is_space c =
     (let n = (of_char c :: nat)
      in n = 32 \<or> (9 \<le> n \<and> n \<le> 13) \<or> (28 \<le> n \<and> n \<le> 31) \<or> n = 133 \<or> n = 160)"

definition is_alnum :: "char \<Rightarrow> bool" where
  "is_alnum c =
     (let n = (of_char c :: nat)
      in (48 \<le> n \<and> n \<le> 57) \<or> (65 \<le> n \<and> n \<le> 90) \<or> (97 \<le> n \<and> n \<le> 122))"

text \<open>\<^verbatim>\<open>x.split()\<close>: the maximal runs of characters that are not whitespace.\<close>

fun split_str_acc :: "string \<Rightarrow> string \<Rightarrow> string list" where
  "split_str_acc cur [] = (if cur = [] then [] else [cur])"
| "split_str_acc cur (c # cs) =
     (if is_space c then (if cur = [] then split_str_acc [] cs else cur # split_str_acc [] cs)
      else split_str_acc (cur @ [c]) cs)"

definition split_str :: "string \<Rightarrow> string list" where
  "split_str x = split_str_acc [] x"

text \<open>\<^verbatim>\<open>' '.join(words)\<close>\<close>

fun join_str :: "string list \<Rightarrow> string" where
  "join_str [] = []"
| "join_str [w] = w"
| "join_str (w # ws) = w @ '' '' @ join_str ws"

text \<open>
  The spell checker is a library object; its \<^verbatim>\<open>correction\<close> method is a parameter
  \<open>spell\<close> of the model, \<open>None\<close> when it has no suggestion. The first lambda of
  \<^verbatim>\<open>clean_data\<close> leaves a missing cell as it is, and calls \<^verbatim>\<open>x.split()\<close> on any
  other cell, which raises \<^verbatim>\<open>AttributeError\<close> on a number.
\<close>

definition correction_or_word :: "(string \<Rightarrow> string option) \<Rightarrow> string \<Rightarrow> string" where
  "correction_or_word spell word = (case spell word of Some w \<Rightarrow> w | None \<Rightarrow> word)"

fun correct_spelling :: "(string \<Rightarrow> string option) \<Rightarrow> cell \<Rightarrow> error + cell" where
  "correct_spelling spell NaN = Inr NaN"
| "correct_spelling spell (S x) = Inr (S (join_str (map (correction_or_word spell) (split_str x))))"
| "correct_spelling spell (I n) = Inl AttributeError"
| "correct_spelling spell (F v) = Inl AttributeError"

text \<open>
  The second lambda: \<^verbatim>\<open>re.sub(r'[^A-Za-z0-9\s]+', '', x)\<close> deletes every character
  that is neither a letter, a digit nor whitespace; \<^verbatim>\<open>re.sub\<close> raises
  \<^verbatim>\<open>TypeError\<close> on a number.
\<close>

fun remove_unwanted :: "cell \<Rightarrow> error + cell" where
  "remove_unwanted NaN = Inr NaN"
| "remove_unwanted (S x) = Inr (S (filter (\<lambda>c. is_alnum c \<or> is_space c) x))"
| "remove_unwanted (I n) = Inl TypeError"
| "remove_unwanted (F v) = Inl TypeError"

text \<open>
  \<^verbatim>\<open>data[col] = data[col].apply(f)\<close> for the column at position \<open>j\<close>: \<open>f\<close> runs
  on the cells from the first row to the last, and the first exception ends the call.
\<close>

fun apply_rows :: "(cell \<Rightarrow> error + cell) \<Rightarrow> nat \<Rightarrow> row list \<Rightarrow> error + row list" where
  "apply_rows f j [] = Inr []"
| "apply_rows f j (r # rs) =
     (case f (snd r ! j) of
        Inl e \<Rightarrow> Inl e
      | Inr c \<Rightarrow>
          (case apply_rows f j rs of
             Inl e \<Rightarrow> Inl e
           | Inr rs' \<Rightarrow> Inr ((fst r, (snd r)[j := c]) # rs')))"

definition apply_column :: "(cell \<Rightarrow> error + cell) \<Rightarrow> nat \<Rightarrow> frame \<Rightarrow> error + frame" where
  "apply_column f j data =
     (case apply_rows f j (rows data) of
        Inl e \<Rightarrow> Inl e
      | Inr rs \<Rightarrow> Inr (data\<lparr>rows := rs\<rparr>))"

text \<open>\<^verbatim>\<open>for col in cols: data[col] = data[col].apply(f)\<close>\<close>

fun for_columns :: "nat list \<Rightarrow> (cell \<Rightarrow> error + cell) \<Rightarrow> frame \<Rightarrow> error + frame" where
  "for_columns [] f data = Inr data"
| "for_columns (j # js) f data =
     (case apply_column f j data of
        Inl e \<Rightarrow> Inl e
      | Inr data' \<Rightarrow> for_columns js f data')"

text \<open>The two loops of \<^verbatim>\<open>clean_data\<close> over the object columns (lines 54 to 67).\<close>

definition correct_and_strip :: "(string \<Rightarrow> string option) \<Rightarrow> frame \<Rightarrow> error + frame" where
  "correct_and_strip spell data =
     (case for_columns (object_columns data) (correct_spelling spell) data of
        Inl e \<Rightarrow> Inl e
      | Inr data' \<Rightarrow> for_columns (object_columns data') remove_unwanted data')"

text \<open>
  \<^verbatim>\<open>clean_data(data)\<close>. The frame it was given is never assigned into: the first
  statement rebinds \<^verbatim>\<open>data\<close> to the new frame that \<^verbatim>\<open>drop_duplicates\<close> returns.
\<close>

definition clean_data :: "(string \<Rightarrow> string option) \<Rightarrow> frame \<Rightarrow> error + frame" where
  "clean_data spell data = correct_and_strip spell (dropna (drop_duplicates data))"

text \<open>
  What the two lambdas make of a cell when they return: a text is corrected word by word
  and rejoined, then filtered; a missing value stays. \<open>clean_row\<close> is a row with
  the cells of the given columns so treated.
\<close>

fun spelled :: "(string \<Rightarrow> string option) \<Rightarrow> cell \<Rightarrow> cell" where
  "spelled spell (S x) = S (join_str (map (correction_or_word spell) (split_str x)))"
| "spelled spell c = c"

fun stripped :: "cell \<Rightarrow> cell" where
  "stripped (S x) = S (filter (\<lambda>c. is_alnum c \<or> is_space c) x)"
| "stripped c = c"

definition clean_cell :: "(string \<Rightarrow> string option) \<Rightarrow> cell \<Rightarrow> cell" where
  "clean_cell spell c = stripped (spelled spell c)"

definition clean_row :: "(string \<Rightarrow> string option) \<Rightarrow> nat list \<Rightarrow> cell list \<Rightarrow> cell list" where
  "clean_row spell cols cells =
     map (\<lambda>j. if j \<in> set cols then clean_cell spell (cells ! j) else cells ! j)
       [0..<length cells]"

text \<open>Rows without a missing value in any column.\<close>

definition complete :: "row list \<Rightarrow> bool" where
  "complete rs = (\<forall>r \<in> set rs. NaN \<notin> set (snd r))"

text \<open>A spell checker that knows every word it is asked about.\<close>

definition every_word_known :: "string \<Rightarrow> string option" where
  "every_word_known word = Some word"

section \<open>The Transformer\<close>

subsection \<open>Standard scaling of the numerical columns\<close>

text \<open>The cells of the column at position \<open>j\<close>, from the first row to the last.\<close>

definition column_cells :: "nat \<Rightarrow> row list \<Rightarrow> cell list" where
  "column_cells j rs = map (\<lambda>r. snd r ! j) rs"

text \<open>
  The scaler works on an array of float64: every integer of a numerical column is
  converted first. A float64 has 53 binary digits: an integer of at most 53 digits is
  kept, and a longer one is rounded to the nearest integer whose digits beyond the first
  53 are zero, to the one with an even 53rd digit when two are equally near. So
  \<^verbatim>\<open>2 ** 53\<close> and \<^verbatim>\<open>2 ** 53 + 1\<close> are the same float64. \<open>excess m\<close> is the number of binary
  digits of \<open>m\<close> beyond 53.
\<close>

function excess :: "nat \<Rightarrow> nat" where
  "excess m = (if m < 2 ^ 53 then 0 else Suc (excess (m div 2)))"
  by pat_completeness auto

termination
  by (relation "measure id") auto

declare excess.simps [simp del]

definition round_half_even :: "nat \<Rightarrow> nat \<Rightarrow> nat" where
  "round_half_even m k =
     (let q = m div 2 ^ k; r = m mod 2 ^ k
      in if 2 * r < 2 ^ k \<or> (2 * r = 2 ^ k \<and> even q) then q * 2 ^ k else (q + 1) * 2 ^ k)"

definition float64_of_int :: "int \<Rightarrow> real" where
  "float64_of_int n =
     (let m = nat \<bar>n\<bar>; v = real (round_half_even m (excess m))
      in if n < 0 then - v else v)"

fun number :: "cell \<Rightarrow> real option" where
  "number (I n) = Some (float64_of_int n)"
| "number (F v) = Some v"
| "number (S x) = None"
| "number NaN = None"

fun is_text :: "cell \<Rightarrow> bool" where
  "is_text (S x) = True"
| "is_text c = False"

text \<open>The numbers of a column; the scaler leaves the missing values out of the fit.\<close>

definition present :: "cell list \<Rightarrow> real list" where
  "present cs = List.map_filter number cs"

definition mean :: "real list \<Rightarrow> real" where
  "mean xs = sum_list xs / real (length xs)"

text \<open>The variance that \<^verbatim>\<open>StandardScaler\<close> uses divides by the number of values.\<close>

definition variance :: "real list \<Rightarrow> real" where
  "variance xs = sum_list (map (\<lambda>x. (x - mean xs)\<^sup>2) xs) / real (length xs)"

text \<open>
  The scale of a column is the square root of its variance, unless the scaler finds the
  column constant: it then takes the scale 1, so that it never divides by zero. The
  program needs scikit-learn 1.2 or later (\<^verbatim>\<open>OneHotEncoder(sparse_output=False)\<close>),
  where \<^verbatim>\<open>_is_constant_feature(var, mean, n_samples)\<close> finds a column constant when
  its variance is not above the error bound of the computation of a variance,
  \<^verbatim>\<open>n_samples * eps * var + (n_samples * mean * eps) ** 2\<close>, with
  \<^verbatim>\<open>eps = 2 ** -52\<close>. A column of variance zero is constant in this sense.
\<close>

definition is_constant_feature :: "real \<Rightarrow> real \<Rightarrow> nat \<Rightarrow> bool" where
  "is_constant_feature var avg n_samples =
     (let eps = 1 / 2 ^ 52;
          upper_bound = real n_samples * eps * var + (real n_samples * avg * eps)\<^sup>2
      in var \<le> upper_bound)"

definition scale_of :: "real list \<Rightarrow> real" where
  "scale_of xs =
     (if is_constant_feature (variance xs) (mean xs) (length xs) then 1
      else sqrt (variance xs))"

fun scale_cell :: "real \<Rightarrow> real \<Rightarrow> cell \<Rightarrow> cell" where
  "scale_cell m s (I n) = F ((float64_of_int n - m) / s)"
| "scale_cell m s (F v) = F ((v - m) / s)"
| "scale_cell m s NaN = NaN"
| "scale_cell m s (S x) = S x"

definition scale_column :: "nat \<Rightarrow> row list \<Rightarrow> row list" where
  "scale_column j rs =
     (let xs = present (column_cells j rs)
      in map (\<lambda>r. (fst r, (snd r)[j := scale_cell (mean xs) (scale_of xs) (snd r ! j)])) rs)"

text \<open>
  \<^verbatim>\<open>data[numerical_cols] = scaler.fit_transform(data[numerical_cols])\<close>. The scaler
  raises \<^verbatim>\<open>ValueError\<close> on a table without rows, on a table without columns, and on
  a cell that is a text. The assignment writes the scaled columns, which are
  floating-point columns, into the frame \<^verbatim>\<open>data\<close> itself.
\<close>

definition scale_numerical :: "frame \<Rightarrow> error + frame" where
  "scale_numerical data =
     (let numerical_cols = numerical_columns data
      in if rows data = [] \<or> numerical_cols = [] then Inl ValueError
         else if \<exists>j \<in> set numerical_cols. \<exists>c \<in> set (column_cells j (rows data)). is_text c
         then Inl ValueError
         else Inr \<lparr>columns = map (\<lambda>c. (fst c, if snd c = Object then Object else Float64))
                               (columns data),
                    rows = fold scale_column numerical_cols (rows data)\<rparr>)"

subsection \<open>One-hot encoding of the object columns\<close>

fun text_of :: "cell \<Rightarrow> string option" where
  "text_of (S x) = Some x"
| "text_of c = None"

fun is_number :: "cell \<Rightarrow> bool" where
  "is_number (I n) = True"
| "is_number (F v) = True"
| "is_number c = False"

text \<open>Python compares an integer and a floating-point number by their value.\<close>

fun same_value :: "cell \<Rightarrow> cell \<Rightarrow> bool" where
  "same_value (I n) (F v) = (real_of_int n = v)"
| "same_value (F v) (I n) = (v = real_of_int n)"
| "same_value c c' = (c = c')"

text \<open>
  An object column holds Python objects: texts and missing values, and numbers too when
  pandas could not give the column a numerical dtype. The encoder takes the set of the
  values of a column that are not missing, and sorts it. A Python set keeps, of the
  numbers of the same value, the one that came first; \<open>first_values\<close> are these. The
  order of numbers is the order of their values, which Python compares exactly.
\<close>

fun first_values :: "cell list \<Rightarrow> cell list \<Rightarrow> cell list" where
  "first_values seen [] = []"
| "first_values seen (c # cs) =
     (if list_ex (same_value c) seen then first_values seen cs
      else c # first_values (c # seen) cs)"

fun value_of :: "cell \<Rightarrow> real" where
  "value_of (I n) = real_of_int n"
| "value_of (F v) = v"
| "value_of c = 0"

text \<open>
  The categories of a column are its different texts in the order of Python's string
  comparison, or its different numbers in the order of their values, and after them the
  missing value when the column holds one. (A column with texts and numbers has no
  categories: see \<open>one_hot\<close>.)
\<close>

definition categories :: "cell list \<Rightarrow> cell list" where
  "categories cs =
     map S (sort (remdups (List.map_filter text_of cs)))
     @ sort_key value_of (first_values [] (filter is_number cs))
     @ (if NaN \<in> set cs then [NaN] else [])"

text \<open>\<^verbatim>\<open>str(n)\<close> for an integer: its decimal digits, after a minus sign when negative.\<close>

function digits :: "nat \<Rightarrow> string" where
  "digits n =
     (if n < 10 then [''0123456789'' ! n]
      else digits (n div 10) @ [''0123456789'' ! (n mod 10)])"
  by pat_completeness auto

termination
  by (relation "measure id") auto

declare digits.simps [simp del]

definition str_int :: "int \<Rightarrow> string" where
  "str_int n = (if n < 0 then CHR ''-'' # digits (nat (- n)) else digits (nat n))"

text \<open>
  \<^verbatim>\<open>encoder.get_feature_names_out\<close>: the column name, an underscore, and
  \<^verbatim>\<open>str\<close> of the category. How Python prints a floating-point number is a parameter
  \<open>str_float\<close> of the model.
\<close>

fun feature_name :: "(real \<Rightarrow> string) \<Rightarrow> string \<Rightarrow> cell \<Rightarrow> string" where
  "feature_name str_float col (S x) = col @ ''_'' @ x"
| "feature_name str_float col (I n) = col @ ''_'' @ str_int n"
| "feature_name str_float col (F v) = col @ ''_'' @ str_float v"
| "feature_name str_float col NaN = col @ ''_nan''"

text \<open>The indicators of a cell: 1 for its category, which the encoder finds by value.\<close>

definition indicators :: "cell list \<Rightarrow> cell \<Rightarrow> cell list" where
  "indicators cats c = map (\<lambda>cat. if same_value c cat then F 1 else F 0) cats"

text \<open>
  \<^verbatim>\<open>pd.DataFrame(encoder.fit_transform(data[categorical_cols]),
  columns=encoder.get_feature_names_out(categorical_cols))\<close>. The new frame has the
  index labels \<open>0, 1, 2, \<dots>\<close> that pandas gives to a frame built from an array.

  Python cannot compare a text with a number, and the encoder raises
  \<^verbatim>\<open>TypeError\<close> on a column that holds both.

  What the encoder does when there is no object column at all is decided inside
  scikit-learn and not by the program; the model takes it as the parameter
  \<open>rejects_empty\<close>: the encoder either raises \<^verbatim>\<open>ValueError\<close> or returns a table
  with no columns.
\<close>

definition one_hot :: "(real \<Rightarrow> string) \<Rightarrow> bool \<Rightarrow> frame \<Rightarrow> error + frame" where
  "one_hot str_float rejects_empty data =
     (let categorical_cols = object_columns data
      in if categorical_cols = [] \<and> rejects_empty then Inl ValueError
         else if \<exists>j \<in> set categorical_cols.
                   list_ex is_text (column_cells j (rows data))
                   \<and> list_ex is_number (column_cells j (rows data))
         then Inl TypeError
         else Inr \<lparr>columns = concat (map (\<lambda>j. map (\<lambda>cat. (feature_name str_float (fst (columns data ! j)) cat, Float64))
                                               (categories (column_cells j (rows data))))
                                      categorical_cols),
                    rows = zip [0..<length (rows data)]
                             (map (\<lambda>r. concat (map (\<lambda>j. indicators (categories (column_cells j (rows data)))
                                                          (snd r ! j))
                                                  categorical_cols))
                                (rows data))\<rparr>)"

subsection \<open>Dropping and concatenating columns\<close>

text \<open>\<^verbatim>\<open>data.drop(cols, axis=1)\<close> returns a new frame without the columns \<open>cols\<close>.\<close>

definition drop_columns :: "nat list \<Rightarrow> frame \<Rightarrow> frame" where
  "drop_columns cols data =
     (let kept = filter (\<lambda>j. j \<notin> set cols) [0..<length (columns data)]
      in \<lparr>columns = map (\<lambda>j. columns data ! j) kept,
          rows = map (\<lambda>r. (fst r, map (\<lambda>j. snd r ! j) kept)) (rows data)\<rparr>)"

text \<open>The cells of the row labelled \<open>l\<close>, or missing values when no row has this label.\<close>

definition reindex :: "frame \<Rightarrow> nat \<Rightarrow> cell list" where
  "reindex data l =
     (case map_of (rows data) l of
        Some cells \<Rightarrow> cells
      | None \<Rightarrow> replicate (length (columns data)) NaN)"

text \<open>
  \<^verbatim>\<open>pd.concat([a, b], axis=1)\<close> puts the columns of \<open>b\<close> beside those of \<open>a\<close>,
  matching the rows by their index label. With the same labels in the same order the rows
  are paired as they stand. Otherwise the result has one row for every label of either
  frame (those of \<open>a\<close> first), with missing values where a frame has no row of that
  label; pandas cannot do this when a label occurs twice, and raises
  \<^verbatim>\<open>InvalidIndexError\<close>.
\<close>

definition concat_columns :: "frame \<Rightarrow> frame \<Rightarrow> error + frame" where
  "concat_columns a b =
     (let la = map fst (rows a); lb = map fst (rows b)
      in if la = lb
         then Inr \<lparr>columns = columns a @ columns b,
                    rows = map (\<lambda>(r, s). (fst r, snd r @ snd s)) (zip (rows a) (rows b))\<rparr>
         else if distinct la \<and> distinct lb
         then Inr \<lparr>columns = columns a @ columns b,
                    rows = map (\<lambda>l. (l, reindex a l @ reindex b l))
                             (la @ filter (\<lambda>l. l \<notin> set la) lb)\<rparr>
         else Inl InvalidIndexError)"

text \<open>
  \<^verbatim>\<open>transform_data(data)\<close>. The first statement assigns into the frame that the
  caller passed, so the model returns two things: the frame of the caller as the call
  leaves it, and the outcome of the call (the frame returned, or the exception). The
  later statements rebind \<^verbatim>\<open>data\<close> to new frames and leave the caller's frame alone.
\<close>

definition transform_data ::
  "(real \<Rightarrow> string) \<Rightarrow> bool \<Rightarrow> frame \<Rightarrow> frame \<times> (error + frame)" where
  "transform_data str_float rejects_empty data =
     (case scale_numerical data of
        Inl e \<Rightarrow> (data, Inl e)
      | Inr scaled \<Rightarrow>
          (scaled,
           case one_hot str_float rejects_empty scaled of
             Inl e \<Rightarrow> Inl e
           | Inr encoded_data \<Rightarrow>
               concat_columns (drop_columns (object_columns scaled) scaled) encoded_data))"

section \<open>Sorter and Validator\<close>

text \<open>The position of the first column with a given name.\<close>

definition column_position :: "frame \<Rightarrow> string \<Rightarrow> nat option" where
  "column_position data column_name =
     List.find (\<lambda>j. fst (columns data ! j) = column_name) [0..<length (columns data)]"

text \<open>
  \<^verbatim>\<open>data.sort_values(by=column_name, ascending=ascending)\<close> sorts with the default
  \<^verbatim>\<open>kind='quicksort'\<close>: pandas hands the values that are not missing to NumPy's
  \<^verbatim>\<open>argsort\<close>, a parameter of the model, and puts the rows with a missing value last.
  For a descending order it reverses the values before the sort and the positions after.
\<close>

definition nargsort :: "(cell list \<Rightarrow> nat list) \<Rightarrow> cell list \<Rightarrow> bool \<Rightarrow> nat list" where
  "nargsort argsort items ascending =
     (let idx = [0..<length items];
          non_nan_idx = filter (\<lambda>i. items ! i \<noteq> NaN) idx;
          nan_idx = filter (\<lambda>i. items ! i = NaN) idx;
          non_nan_idx = (if ascending then non_nan_idx else rev non_nan_idx);
          indexer = map (\<lambda>p. non_nan_idx ! p) (argsort (map (\<lambda>i. items ! i) non_nan_idx));
          indexer = (if ascending then indexer else rev indexer)
      in indexer @ nan_idx)"

definition sort_data :: "(cell list \<Rightarrow> nat list) \<Rightarrow> frame \<Rightarrow> string \<Rightarrow> bool \<Rightarrow> error + frame" where
  "sort_data argsort data column_name ascending =
     (case column_position data column_name of
        None \<Rightarrow> Inl KeyError
      | Some j \<Rightarrow>
          Inr (data\<lparr>rows := map (\<lambda>i. rows data ! i)
                               (nargsort argsort (column_cells j (rows data)) ascending)\<rparr>))"

text \<open>What the program prints.\<close>

datatype message =
    InvalidValuesFound string
  | Table frame
  | NoProblemsFound string
  | UnexpectedResponseStructure
  | RequestFailedWithStatus int
  | ResponseText string
  | RequestTimedOut
  | ErrorOccurred string

text \<open>
  \<^verbatim>\<open>check_domain_constraints(data, column_name, valid_values)\<close> builds a second frame
  of the rows whose value is not among \<^verbatim>\<open>valid_values\<close>, prints, and returns nothing;
  \<^verbatim>\<open>data[column_name]\<close> raises \<^verbatim>\<open>KeyError\<close> when there is no such column. As for
  \<^verbatim>\<open>transform_data\<close>, the model returns the frame of the caller as the call leaves it,
  and the outcome: what was printed, or the exception.
\<close>

definition check_domain_constraints ::
  "frame \<Rightarrow> string \<Rightarrow> cell list \<Rightarrow> frame \<times> (error + message list)" where
  "check_domain_constraints data column_name valid_values =
     (data,
      case column_position data column_name of
        None \<Rightarrow> Inl KeyError
      | Some j \<Rightarrow>
          (let invalid_values =
                 data\<lparr>rows := filter (\<lambda>r. list_ex (same_value (snd r ! j)) valid_values = False)
                                  (rows data)\<rparr>
           in if rows invalid_values = []
              then Inr [NoProblemsFound column_name]
              else Inr [InvalidValuesFound column_name, Table invalid_values]))"

section \<open>The pipeline\<close>

text \<open>
  \<^verbatim>\<open>perform_analysis(data)\<close>. The variable \<^verbatim>\<open>cleaned_data\<close> names one frame from
  the sort on; \<^verbatim>\<open>transform_data\<close> is called on this frame, and the pair returned holds
  the same frame, as the call has left it. The model returns what was printed and the
  outcome.
\<close>

definition perform_analysis ::
  "(string \<Rightarrow> string option) \<Rightarrow> (cell list \<Rightarrow> nat list) \<Rightarrow> (real \<Rightarrow> string) \<Rightarrow> bool \<Rightarrow> frame
     \<Rightarrow> message list \<times> (error + frame \<times> frame)" where
  "perform_analysis spell argsort str_float rejects_empty data =
     (case clean_data spell data of
        Inl e \<Rightarrow> ([], Inl e)
      | Inr cleaned_data \<Rightarrow>
          (case (if ''name'' \<in> set (map fst (columns cleaned_data))
                 then sort_data argsort cleaned_data ''name'' True
                 else Inr cleaned_data) of
             Inl e \<Rightarrow> ([], Inl e)
           | Inr cleaned_data \<Rightarrow>
               (case (if ''some_column'' \<in> set (map fst (columns cleaned_data))
                      then check_domain_constraints cleaned_data ''some_column''
                             [S ''Value1'', S ''Value2'', S ''Value3'']
                      else (cleaned_data, Inr [])) of
                  (cleaned_data, Inl e) \<Rightarrow> ([], Inl e)
                | (cleaned_data, Inr printed) \<Rightarrow>
                    (case transform_data str_float rejects_empty cleaned_data of
                       (cleaned_data, Inl e) \<Rightarrow> (printed, Inl e)
                     | (cleaned_data, Inr transformed_data) \<Rightarrow>
                         (printed, Inr (cleaned_data, transformed_data))))))"

text \<open>
  An \<^verbatim>\<open>argsort\<close> for the examples, which sort texts: an insertion sort of the
  positions.
\<close>

definition insertion_argsort :: "cell list \<Rightarrow> nat list" where
  "insertion_argsort items =
     sort_key (\<lambda>i. case items ! i of S x \<Rightarrow> x | _ \<Rightarrow> []) [0..<length items]"

text \<open>
  A \<^verbatim>\<open>str\<close> of floating-point numbers for the examples: Python prints a whole number
  below \<^verbatim>\<open>1e16\<close> with its decimal digits and \<^verbatim>\<open>.0\<close>.
\<close>

definition str_whole :: "real \<Rightarrow> string" where
  "str_whole v = str_int \<lfloor>v\<rfloor> @ ''.0''"

section \<open>The API loader\<close>

text \<open>
  A decoded JSON document, as \<^verbatim>\<open>response.json()\<close> returns it: \<^verbatim>\<open>None\<close>, a
  boolean, a number, a string, a list or a dictionary (an object whose key occurs twice
  decodes to the last value).
\<close>

datatype json =
    JNull
  | JBool bool
  | JNumber real
  | JString string
  | JList "json list"
  | JDict "(string \<times> json) list"

text \<open>
  What \<^verbatim>\<open>requests.get(api_url, timeout=10)\<close> does: it raises
  \<^verbatim>\<open>requests.exceptions.Timeout\<close>, or another \<^verbatim>\<open>RequestException\<close> (with its
  message), or it returns a response with a status code, a text, and a body that decodes
  as JSON or does not. On a body that does not decode, \<^verbatim>\<open>response.json()\<close> raises
  \<^verbatim>\<open>requests.exceptions.JSONDecodeError\<close>, which is a \<^verbatim>\<open>RequestException\<close>.
\<close>

datatype fetched =
    Timeout
  | RequestException string
  | Response int string "json option"

text \<open>Python's \<^verbatim>\<open>'data' in data\<close>, on each kind of JSON value.\<close>

fun occurs_in :: "string \<Rightarrow> string \<Rightarrow> bool" where
  "occurs_in x [] = (x = [])"
| "occurs_in x (c # cs) = (take (length x) (c # cs) = x \<or> occurs_in x cs)"

fun data_in :: "json \<Rightarrow> error + bool" where
  "data_in (JDict items) = Inr (''data'' \<in> set (map fst items))"
| "data_in (JList xs) = Inr (JString ''data'' \<in> set xs)"
| "data_in (JString x) = Inr (occurs_in ''data'' x)"
| "data_in (JNumber v) = Inl TypeError"
| "data_in (JBool b) = Inl TypeError"
| "data_in JNull = Inl TypeError"

text \<open>Python's \<^verbatim>\<open>data['data']\<close>: only a dictionary can be indexed by a string.\<close>

fun data_item :: "json \<Rightarrow> error + json" where
  "data_item (JDict items) =
     (case map_of (rev items) ''data'' of Some v \<Rightarrow> Inr v | None \<Rightarrow> Inl KeyError)"
| "data_item v = Inl TypeError"

text \<open>
  \<^verbatim>\<open>load_api(api_url)\<close>. The two \<^verbatim>\<open>except\<close> clauses catch
  \<^verbatim>\<open>Timeout\<close> and \<^verbatim>\<open>RequestException\<close> and nothing else. The network
  (\<^verbatim>\<open>requests.get\<close>) and the frame constructor (\<^verbatim>\<open>pd.DataFrame\<close>, which can
  raise) are parameters. The model returns what was printed and the outcome: an exception
  that leaves the function, \<^verbatim>\<open>None\<close>, or a frame.
\<close>

definition load_api ::
  "(string \<Rightarrow> fetched) \<Rightarrow> (json \<Rightarrow> error + frame) \<Rightarrow> string
     \<Rightarrow> message list \<times> (error + frame option)" where
  "load_api get DataFrame api_url =
     (case get api_url of
        Timeout \<Rightarrow> ([RequestTimedOut], Inr None)
      | RequestException e \<Rightarrow> ([ErrorOccurred e], Inr None)
      | Response status_code text body \<Rightarrow>
          (if status_code = 200 then
             (case body of
                None \<Rightarrow> ([ErrorOccurred ''JSONDecodeError''], Inr None)
              | Some data \<Rightarrow>
                  (case data_in data of
                     Inl e \<Rightarrow> ([], Inl e)
                   | Inr True \<Rightarrow>
                       (case data_item data of
                          Inl e \<Rightarrow> ([], Inl e)
                        | Inr v \<Rightarrow>
                            (case DataFrame v of
                               Inl e \<Rightarrow> ([], Inl e)
                             | Inr frame \<Rightarrow> ([], Inr (Some frame))))
                   | Inr False \<Rightarrow> ([UnexpectedResponseStructure], Inr None)))
           else ([RequestFailedWithStatus status_code, ResponseText text], Inr None)))"

text \<open>
  For the examples: a server that answers every request with the status 200 and the JSON
  document \<^verbatim>\<open>null\<close>, and one that answers with the number 5; a frame constructor
  that raises on everything.
\<close>

definition answers_null :: "string \<Rightarrow> fetched" where
  "answers_null url = Response 200 ''null'' (Some JNull)"

definition answers_five :: "string \<Rightarrow> fetched" where
  "answers_five url = Response 200 ''5'' (Some (JNumber 5))"

definition no_frame :: "json \<Rightarrow> error + frame" where
  "no_frame v = Inl ValueError"


definition widths :: "row list \<Rightarrow> nat list" where
  "widths rs = map (\<lambda>r. length (snd r)) rs"

text \<open>
  A frame is textual when no cell of an object column is a number (section 3 of the
  specification: a textual column holds texts and missing values).
\<close>

definition textual :: "frame \<Rightarrow> bool" where
  "textual data =
     list_all (\<lambda>r. list_all (\<lambda>j. number (snd r ! j) = None) (object_columns data)) (rows data)"

definition no_numbers :: "nat set \<Rightarrow> row list \<Rightarrow> bool" where
  "no_numbers J rs = (\<forall>r \<in> set rs. \<forall>j \<in> J. number (snd r ! j) = None)"

section \<open>Properties of the Cleaner\<close>

subsection \<open>Auxiliary facts\<close>

lemma keep_first_subset: "set (keep_first seen rs) \<subseteq> set rs"
  by (induction rs arbitrary: seen) auto

lemma keep_first_fresh: "r \<in> set (keep_first seen rs) \<Longrightarrow> snd r \<notin> set seen"
proof (induction rs arbitrary: seen)
  case Nil
  then show ?case by simp
next
  case (Cons x xs)
  show ?case
  proof (cases "snd x \<in> set seen")
    case True
    then show ?thesis using Cons by simp
  next
    case False
    then have "r = x \<or> r \<in> set (keep_first (snd x # seen) xs)" using Cons.prems by simp
    then show ?thesis using False Cons.IH [of "snd x # seen"] by auto
  qed
qed

lemma keep_first_distinct: "distinct (map snd (keep_first seen rs))"
proof (induction rs arbitrary: seen)
  case Nil
  then show ?case by simp
next
  case (Cons r rs)
  have "snd r \<notin> snd ` set (keep_first (snd r # seen) rs)"
    using keep_first_fresh [of _ "snd r # seen" rs] by force
  with Cons show ?case by simp
qed

lemma keep_first_id:
  "distinct (map snd rs) \<Longrightarrow> snd ` set rs \<inter> set seen = {} \<Longrightarrow> keep_first seen rs = rs"
  by (induction rs arbitrary: seen) auto

lemma apply_rows_labels: "apply_rows f j rs = Inr rs' \<Longrightarrow> map fst rs' = map fst rs"
  by (induction rs arbitrary: rs') (auto split: sum.splits)

lemma update_complete: "NaN \<notin> set r \<Longrightarrow> c \<noteq> NaN \<Longrightarrow> NaN \<notin> set (r[j := c])"
  using set_update_subset_insert [of r j c] by auto

lemma apply_rows_complete:
  assumes "\<And>c c'. f c = Inr c' \<Longrightarrow> c \<noteq> NaN \<Longrightarrow> c' \<noteq> NaN"
  shows "apply_rows f j rs = Inr rs' \<Longrightarrow> \<forall>r \<in> set rs. NaN \<notin> set (snd r) \<Longrightarrow> \<forall>r \<in> set rs'. NaN \<notin> set (snd r)"
proof (induction rs arbitrary: rs')
  case Nil
  then show ?case by simp
next
  case (Cons r rs)
  from Cons.prems(1) obtain c rs1 where c: "f (snd r ! j) = Inr c"
    and rs1: "apply_rows f j rs = Inr rs1" and rs': "rs' = (fst r, (snd r)[j := c]) # rs1"
    by (auto split: sum.splits)
  have tail: "\<forall>r \<in> set rs1. NaN \<notin> set (snd r)"
    using Cons.IH [OF rs1] Cons.prems(2) by simp
  have head: "NaN \<notin> set ((snd r)[j := c])"
  proof (cases "j < length (snd r)")
    case True
    then have "snd r ! j \<noteq> NaN" using Cons.prems(2) by (metis list.set_intros(1) nth_mem)
    then have "c \<noteq> NaN" using assms c by blast
    then show ?thesis using Cons.prems(2) by (simp add: update_complete)
  next
    case False
    then have "(snd r)[j := c] = snd r" by (simp add: list_update_beyond)
    then show ?thesis using Cons.prems(2) by simp
  qed
  show ?case using head tail rs' by simp
qed

lemma correct_spelling_complete: "correct_spelling spell c = Inr c' \<Longrightarrow> c \<noteq> NaN \<Longrightarrow> c' \<noteq> NaN"
  by (cases c) auto

lemma remove_unwanted_complete: "remove_unwanted c = Inr c' \<Longrightarrow> c \<noteq> NaN \<Longrightarrow> c' \<noteq> NaN"
  by (cases c) auto

lemma for_columns_labels:
  "for_columns js f d = Inr d' \<Longrightarrow> map fst (rows d') = map fst (rows d) \<and> columns d' = columns d"
proof (induction js arbitrary: d)
  case Nil
  then show ?case by simp
next
  case (Cons j js)
  from Cons.prems obtain d1 where d1: "apply_column f j d = Inr d1" and rest: "for_columns js f d1 = Inr d'"
    by (auto split: sum.splits)
  from d1 have "map fst (rows d1) = map fst (rows d) \<and> columns d1 = columns d"
    by (auto simp: apply_column_def split: sum.splits dest: apply_rows_labels)
  with Cons.IH [OF rest] show ?case by simp
qed

lemma for_columns_complete:
  assumes f: "\<And>c c'. f c = Inr c' \<Longrightarrow> c \<noteq> NaN \<Longrightarrow> c' \<noteq> NaN"
  shows "for_columns js f d = Inr d' \<Longrightarrow> complete (rows d) \<Longrightarrow> complete (rows d')"
proof (induction js arbitrary: d)
  case Nil
  then show ?case by simp
next
  case (Cons j js)
  from Cons.prems(1) obtain d1 where d1: "apply_column f j d = Inr d1" and rest: "for_columns js f d1 = Inr d'"
    by (auto split: sum.splits)
  from d1 obtain rs where rs: "apply_rows f j (rows d) = Inr rs" and "d1 = d\<lparr>rows := rs\<rparr>"
    by (auto simp: apply_column_def split: sum.splits)
  then have "complete (rows d1)"
    using apply_rows_complete [OF f rs] Cons.prems(2) by (simp add: complete_def)
  with Cons.IH [OF rest] show ?case by simp
qed

lemma correct_and_strip_labels:
  assumes "correct_and_strip spell d = Inr d'"
  shows "map fst (rows d') = map fst (rows d) \<and> columns d' = columns d"
proof -
  from assms obtain d1 where
    d1: "for_columns (object_columns d) (correct_spelling spell) d = Inr d1" and
    d': "for_columns (object_columns d1) remove_unwanted d1 = Inr d'"
    by (auto simp: correct_and_strip_def split: sum.splits)
  show ?thesis using for_columns_labels [OF d1] for_columns_labels [OF d'] by simp
qed

lemma correct_and_strip_complete:
  assumes "correct_and_strip spell d = Inr d'" and "complete (rows d)"
  shows "complete (rows d')"
proof -
  from assms(1) obtain d1 where
    d1: "for_columns (object_columns d) (correct_spelling spell) d = Inr d1" and
    d': "for_columns (object_columns d1) remove_unwanted d1 = Inr d'"
    by (auto simp: correct_and_strip_def split: sum.splits)
  have "complete (rows d1)"
    using for_columns_complete [OF correct_spelling_complete d1 assms(2)] .
  then show ?thesis
    using for_columns_complete [OF remove_unwanted_complete d'] by simp
qed

lemma complete_dropna: "complete (rows (dropna d))"
  by (simp add: dropna_def complete_def)

lemma dropna_id: "complete (rows d) \<Longrightarrow> dropna d = d"
  by (simp add: dropna_def complete_def)

lemma drop_duplicates_id: "distinct (map snd (rows d)) \<Longrightarrow> drop_duplicates d = d"
  by (simp add: drop_duplicates_def keep_first_id)

lemma distinct_dropna_drop_duplicates: "distinct (map snd (rows (dropna (drop_duplicates d))))"
  by (simp add: dropna_def drop_duplicates_def keep_first_distinct distinct_map_filter)

lemma clean_data_result:
  assumes "clean_data spell d = Inr d'"
  shows "complete (rows d') \<and> map fst (rows d') = map fst (rows (dropna (drop_duplicates d)))
     \<and> columns d' = columns d"
proof -
  have cs: "correct_and_strip spell (dropna (drop_duplicates d)) = Inr d'"
    using assms by (simp add: clean_data_def)
  show ?thesis
    using correct_and_strip_complete [OF cs complete_dropna] correct_and_strip_labels [OF cs]
    by (simp add: dropna_def drop_duplicates_def)
qed

lemma clean_data_rows_from:
  assumes "clean_data spell d = Inr d'"
  shows "set (map fst (rows d')) \<subseteq> fst ` {r \<in> set (rows d). NaN \<notin> set (snd r)}"
proof -
  have "map fst (rows d') = map fst (rows (dropna (drop_duplicates d)))"
    using clean_data_result [OF assms] by simp
  moreover have "set (rows (dropna (drop_duplicates d))) \<subseteq> {r \<in> set (rows d). NaN \<notin> set (snd r)}"
    using keep_first_subset [of "[]" "rows d"] by (auto simp: dropna_def drop_duplicates_def)
  ultimately show ?thesis by auto
qed

lemmas clean_data_unfold =
  clean_data_def drop_duplicates_def dropna_def correct_and_strip_def object_columns_def
  apply_column_def split_str_def is_space_def is_alnum_def every_word_known_def
  correction_or_word_def upt_rec

subsection \<open>The Cleaner returns a frame for every textual frame\<close>

lemma update_no_number:
  assumes "\<forall>j \<in> J. number (cells ! j) = None" and "number c = None"
  shows "\<forall>j \<in> J. number (cells[i := c] ! j) = None"
proof (cases "i < length cells")
  case True
  then show ?thesis using assms by (simp add: nth_list_update)
next
  case False
  then show ?thesis using assms by (simp add: list_update_beyond)
qed

lemma apply_rows_returns:
  assumes f: "\<forall>c. number c = None \<longrightarrow> (\<exists>c'. f c = Inr c' \<and> number c' = None)"
    and "j \<in> J" and "no_numbers J rs"
  shows "\<exists>rs'. apply_rows f j rs = Inr rs' \<and> no_numbers J rs'"
  using assms(3)
proof (induction rs)
  case Nil
  then show ?case by (simp add: no_numbers_def)
next
  case (Cons r rs)
  then have head: "\<forall>j \<in> J. number (snd r ! j) = None" and tail: "no_numbers J rs"
    by (simp_all add: no_numbers_def)
  from head assms(2) f obtain c' where c': "f (snd r ! j) = Inr c'" "number c' = None"
    by blast
  from Cons.IH [OF tail] obtain rs' where rs': "apply_rows f j rs = Inr rs'" "no_numbers J rs'"
    by blast
  have "\<forall>i \<in> J. number ((snd r)[j := c'] ! i) = None"
    using update_no_number [OF head c'(2)] .
  then show ?case using c' rs' by (simp add: no_numbers_def)
qed

lemma for_columns_returns:
  assumes f: "\<forall>c. number c = None \<longrightarrow> (\<exists>c'. f c = Inr c' \<and> number c' = None)"
  shows "set js \<subseteq> J \<Longrightarrow> no_numbers J (rows d) \<Longrightarrow>
    \<exists>d'. for_columns js f d = Inr d' \<and> no_numbers J (rows d') \<and> columns d' = columns d"
proof (induction js arbitrary: d)
  case Nil
  then show ?case by simp
next
  case (Cons j js)
  then have "j \<in> J" by simp
  from apply_rows_returns [OF f this Cons.prems(2)]
  obtain rs' where rs': "apply_rows f j (rows d) = Inr rs'" "no_numbers J rs'" by blast
  let ?d1 = "d\<lparr>rows := rs'\<rparr>"
  have step: "apply_column f j d = Inr ?d1" using rs' by (simp add: apply_column_def)
  have "set js \<subseteq> J" using Cons.prems(1) by simp
  from Cons.IH [OF this, of ?d1] rs'(2)
  obtain d' where "for_columns js f ?d1 = Inr d'" "no_numbers J (rows d')" "columns d' = columns ?d1"
    by auto
  then show ?case using step by simp
qed

lemma correct_spelling_returns:
  "\<forall>c. number c = None \<longrightarrow> (\<exists>c'. correct_spelling spell c = Inr c' \<and> number c' = None)"
proof (intro allI impI)
  fix c assume "number c = None"
  then show "\<exists>c'. correct_spelling spell c = Inr c' \<and> number c' = None"
    by (cases c) simp_all
qed

lemma remove_unwanted_returns:
  "\<forall>c. number c = None \<longrightarrow> (\<exists>c'. remove_unwanted c = Inr c' \<and> number c' = None)"
proof (intro allI impI)
  fix c assume "number c = None"
  then show "\<exists>c'. remove_unwanted c = Inr c' \<and> number c' = None"
    by (cases c) simp_all
qed

lemma correct_and_strip_returns:
  assumes "textual d"
  shows "\<exists>d'. correct_and_strip spell d = Inr d'"
proof -
  let ?J = "set (object_columns d)"
  have start: "no_numbers ?J (rows d)"
    using assms by (simp add: textual_def no_numbers_def list_all_iff)
  from for_columns_returns [OF correct_spelling_returns _ start, of "object_columns d"]
  obtain d1 where d1: "for_columns (object_columns d) (correct_spelling spell) d = Inr d1"
    "no_numbers ?J (rows d1)" "columns d1 = columns d"
    by auto
  have same: "object_columns d1 = object_columns d" using d1(3) by (simp add: object_columns_def)
  from for_columns_returns [OF remove_unwanted_returns _ d1(2), of "object_columns d1"] same
  obtain d' where "for_columns (object_columns d1) remove_unwanted d1 = Inr d'" by auto
  then show ?thesis using d1(1) by (simp add: correct_and_strip_def)
qed

lemma clean_data_returns:
  assumes "textual d"
  shows "\<exists>d'. clean_data spell d = Inr d'"
proof -
  have "set (rows (dropna (drop_duplicates d))) \<subseteq> set (rows d)"
    using keep_first_subset [of "[]" "rows d"] by (auto simp: dropna_def drop_duplicates_def)
  moreover have "object_columns (dropna (drop_duplicates d)) = object_columns d"
    by (simp add: object_columns_def dropna_def drop_duplicates_def)
  ultimately have "textual (dropna (drop_duplicates d))"
    using assms by (auto simp: textual_def list_all_iff)
  then show ?thesis unfolding clean_data_def by (rule correct_and_strip_returns)
qed

subsection \<open>The rows of the cleaned frame\<close>

text \<open>
  When the two loops return, each row keeps its label and its cells outside the object
  columns, and every cell of an object column is what the two lambdas make of it.
\<close>

lemma apply_rows_map:
  assumes "\<forall>c c'. f c = Inr c' \<longrightarrow> c' = g c"
  shows "apply_rows f j rs = Inr rs' \<Longrightarrow>
    rs' = map (\<lambda>r. (fst r, (snd r)[j := g (snd r ! j)])) rs"
proof (induction rs arbitrary: rs')
  case Nil
  then show ?case by simp
next
  case (Cons r rs)
  from Cons.prems obtain c rs1 where c: "f (snd r ! j) = Inr c"
    and rs1: "apply_rows f j rs = Inr rs1" and rs': "rs' = (fst r, (snd r)[j := c]) # rs1"
    by (auto split: sum.splits)
  have "c = g (snd r ! j)" using assms c by blast
  then show ?case using Cons.IH [OF rs1] rs' by simp
qed

lemma for_columns_map:
  assumes "\<forall>c c'. f c = Inr c' \<longrightarrow> c' = g c"
  shows "for_columns js f d = Inr d' \<Longrightarrow>
    rows d' = map (\<lambda>r. (fst r, fold (\<lambda>j cs. cs[j := g (cs ! j)]) js (snd r))) (rows d)
    \<and> columns d' = columns d"
proof (induction js arbitrary: d)
  case Nil
  then show ?case by simp
next
  case (Cons j js)
  from Cons.prems obtain rs1 where rs1: "apply_rows f j (rows d) = Inr rs1"
    and rest: "for_columns js f (d\<lparr>rows := rs1\<rparr>) = Inr d'"
    by (auto simp: apply_column_def split: sum.splits)
  have r1: "rs1 = map (\<lambda>r. (fst r, (snd r)[j := g (snd r ! j)])) (rows d)"
    using apply_rows_map [OF assms rs1] .
  from Cons.IH [OF rest] have
    rows': "rows d' = map (\<lambda>r. (fst r, fold (\<lambda>j cs. cs[j := g (cs ! j)]) js (snd r))) rs1"
    and d': "columns d' = columns d"
    by simp_all
  have "rows d' = map (\<lambda>r. (fst r, fold (\<lambda>j cs. cs[j := g (cs ! j)]) (j # js) (snd r))) (rows d)"
    unfolding rows' r1 by (simp add: comp_def)
  then show ?case using d' by blast
qed

lemma length_fold_update:
  "length (fold (\<lambda>j cs. cs[j := g (cs ! j)]) js cells) = length cells"
  by (induction js arbitrary: cells) simp_all

lemma nth_fold_update:
  "distinct js \<Longrightarrow> i < length cells \<Longrightarrow>
     fold (\<lambda>j cs. cs[j := g (cs ! j)]) js cells ! i
       = (if i \<in> set js then g (cells ! i) else cells ! i)"
proof (induction js arbitrary: cells)
  case Nil
  then show ?case by simp
next
  case (Cons j js)
  then show ?case by (cases "i = j") (simp_all add: nth_list_update)
qed

lemma fold_update_map:
  assumes "distinct js"
  shows "fold (\<lambda>j cs. cs[j := g (cs ! j)]) js cells
    = map (\<lambda>j. if j \<in> set js then g (cells ! j) else cells ! j) [0..<length cells]"
  by (rule nth_equalityI) (simp_all add: length_fold_update nth_fold_update [OF assms])

lemma correct_spelling_spelled:
  "\<forall>c c'. correct_spelling spell c = Inr c' \<longrightarrow> c' = spelled spell c"
proof (intro allI impI)
  fix c c' assume "correct_spelling spell c = Inr c'"
  then show "c' = spelled spell c" by (cases c) auto
qed

lemma remove_unwanted_stripped:
  "\<forall>c c'. remove_unwanted c = Inr c' \<longrightarrow> c' = stripped c"
proof (intro allI impI)
  fix c c' assume "remove_unwanted c = Inr c'"
  then show "c' = stripped c" by (cases c) auto
qed

lemma distinct_object_columns: "distinct (object_columns d)"
  by (simp add: object_columns_def)

lemma correct_and_strip_rows:
  assumes "correct_and_strip spell d = Inr d'"
  shows "rows d' = map (\<lambda>r. (fst r, clean_row spell (object_columns d) (snd r))) (rows d)"
    and "columns d' = columns d"
proof -
  let ?J = "object_columns d"
  from assms obtain d1 where
    d1: "for_columns ?J (correct_spelling spell) d = Inr d1" and
    d': "for_columns (object_columns d1) remove_unwanted d1 = Inr d'"
    by (auto simp: correct_and_strip_def split: sum.splits)
  note m1 = for_columns_map [OF correct_spelling_spelled d1]
  have c1: "columns d1 = columns d" using m1 by blast
  then have cols: "object_columns d1 = ?J"
    by (simp add: object_columns_def)
  note m2 = for_columns_map [OF remove_unwanted_stripped d']
  show "columns d' = columns d" using m2 c1 by simp
  have two: "fold (\<lambda>j cs. cs[j := stripped (cs ! j)]) ?J
       (fold (\<lambda>j cs. cs[j := spelled spell (cs ! j)]) ?J cells)
     = clean_row spell ?J cells" for cells
    unfolding clean_row_def clean_cell_def
    by (rule nth_equalityI)
      (simp_all add: length_fold_update nth_fold_update [OF distinct_object_columns])
  have "rows d' = map (\<lambda>r. (fst r, fold (\<lambda>j cs. cs[j := stripped (cs ! j)]) ?J (snd r))) (rows d1)"
    using m2 cols by simp
  also have "rows d1 = map (\<lambda>r. (fst r, fold (\<lambda>j cs. cs[j := spelled spell (cs ! j)]) ?J (snd r))) (rows d)"
    using m1 by blast
  finally show "rows d' = map (\<lambda>r. (fst r, clean_row spell ?J (snd r))) (rows d)"
    by (simp add: comp_def two)
qed


lemma clean_data_rows:
  assumes "clean_data spell d = Inr d'"
  shows "rows d' = map (\<lambda>r. (fst r, clean_row spell (object_columns d) (snd r)))
           (rows (dropna (drop_duplicates d)))"
    and "columns d' = columns d"
proof -
  have cs: "correct_and_strip spell (dropna (drop_duplicates d)) = Inr d'"
    using assms by (simp add: clean_data_def)
  have same: "object_columns (dropna (drop_duplicates d)) = object_columns d"
    by (simp add: object_columns_def dropna_def drop_duplicates_def)
  show "rows d' = map (\<lambda>r. (fst r, clean_row spell (object_columns d) (snd r)))
           (rows (dropna (drop_duplicates d)))"
    using correct_and_strip_rows(1) [OF cs] by (simp add: same)
  show "columns d' = columns d"
    using correct_and_strip_rows(2) [OF cs] by (simp add: dropna_def drop_duplicates_def)
qed

lemma clean_row_no_columns: "clean_row spell [] cells = cells"
  by (simp add: clean_row_def map_nth)

lemma length_keep_first: "length (keep_first seen rs) \<le> length rs"
  by (induction rs arbitrary: seen) (auto intro: le_SucI)

lemma keep_first_full:
  "length (keep_first seen rs) = length rs \<Longrightarrow> keep_first seen rs = rs"
proof (induction rs arbitrary: seen)
  case Nil
  then show ?case by simp
next
  case (Cons r rs)
  show ?case
  proof (cases "snd r \<in> set seen")
    case True
    then have "length (keep_first seen rs) = Suc (length rs)" using Cons.prems by simp
    then show ?thesis using length_keep_first [of seen rs] by simp
  next
    case False
    then show ?thesis using Cons by simp
  qed
qed

text \<open>When a loop over the object columns returns, these columns hold no number.\<close>

lemma apply_rows_no_numbers:
  assumes f: "\<forall>c c'. f c = Inr c' \<longrightarrow> number c = None \<and> number c' = None"
  shows "apply_rows f j rs = Inr rs' \<Longrightarrow> no_numbers K rs \<Longrightarrow> no_numbers (insert j K) rs'"
proof (induction rs arbitrary: rs')
  case Nil
  then show ?case by (simp add: no_numbers_def)
next
  case (Cons r rs)
  from Cons.prems(1) obtain c rs1 where c: "f (snd r ! j) = Inr c"
    and rs1: "apply_rows f j rs = Inr rs1" and rs': "rs' = (fst r, (snd r)[j := c]) # rs1"
    by (auto split: sum.splits)
  have head: "\<forall>i \<in> K. number (snd r ! i) = None" and tail: "no_numbers K rs"
    using Cons.prems(2) by (simp_all add: no_numbers_def)
  have old: "number (snd r ! j) = None" and new: "number c = None" using f c by blast+
  have "\<forall>i \<in> insert j K. number (snd r ! i) = None" using head old by simp
  from update_no_number [OF this new]
  have "\<forall>i \<in> insert j K. number ((snd r)[j := c] ! i) = None" .
  then show ?case using Cons.IH [OF rs1 tail] rs' by (simp add: no_numbers_def)
qed

lemma for_columns_no_numbers:
  assumes f: "\<forall>c c'. f c = Inr c' \<longrightarrow> number c = None \<and> number c' = None"
  shows "for_columns js f d = Inr d' \<Longrightarrow> no_numbers K (rows d) \<Longrightarrow>
    no_numbers (K \<union> set js) (rows d')"
proof (induction js arbitrary: d K)
  case Nil
  then show ?case by simp
next
  case (Cons j js)
  from Cons.prems(1) obtain rs1 where rs1: "apply_rows f j (rows d) = Inr rs1"
    and rest: "for_columns js f (d\<lparr>rows := rs1\<rparr>) = Inr d'"
    by (auto simp: apply_column_def split: sum.splits)
  have "no_numbers (insert j K) rs1"
    using apply_rows_no_numbers [OF f rs1 Cons.prems(2)] .
  then have "no_numbers (insert j K) (rows (d\<lparr>rows := rs1\<rparr>))" by simp
  from Cons.IH [OF rest this] show ?case by simp
qed

lemma correct_spelling_no_number:
  "\<forall>c c'. correct_spelling spell c = Inr c' \<longrightarrow> number c = None \<and> number c' = None"
proof (intro allI impI)
  fix c c' assume "correct_spelling spell c = Inr c'"
  then show "number c = None \<and> number c' = None" by (cases c) auto
qed

lemma correct_and_strip_textual:
  assumes "correct_and_strip spell d = Inr d'"
  shows "textual d'"
proof -
  let ?J = "object_columns d"
  from assms obtain d1 where
    d1: "for_columns ?J (correct_spelling spell) d = Inr d1" and
    d': "for_columns (object_columns d1) remove_unwanted d1 = Inr d'"
    by (auto simp: correct_and_strip_def split: sum.splits)
  have "no_numbers {} (rows d)" by (simp add: no_numbers_def)
  from for_columns_no_numbers [OF correct_spelling_no_number d1 this]
  have n1: "no_numbers (set ?J) (rows d1)" by simp
  have c1: "columns d1 = columns d"
    using for_columns_map [OF correct_spelling_spelled d1] by blast
  have c2: "columns d' = columns d1"
    using for_columns_map [OF remove_unwanted_stripped d'] by blast
  have cols: "object_columns d1 = ?J" "object_columns d' = ?J"
    using c1 c2 by (simp_all add: object_columns_def)
  have "rows d' = map (\<lambda>r. (fst r, fold (\<lambda>j cs. cs[j := stripped (cs ! j)]) ?J (snd r))) (rows d1)"
    using for_columns_map [OF remove_unwanted_stripped d'] cols by simp
  have "\<exists>d2. for_columns ?J remove_unwanted d1 = Inr d2 \<and> no_numbers (set ?J) (rows d2)
     \<and> columns d2 = columns d1"
    using for_columns_returns [OF remove_unwanted_returns _ n1, of ?J] by simp
  then have "no_numbers (set ?J) (rows d')" using d' cols by auto
  then show ?thesis by (simp add: textual_def no_numbers_def list_all_iff cols)
qed

lemma clean_data_textual: "clean_data spell d = Inr d' \<Longrightarrow> textual d'"
  unfolding clean_data_def by (rule correct_and_strip_textual)

lemma frame_eqI: "columns (a :: frame) = columns b \<Longrightarrow> rows a = rows b \<Longrightarrow> a = b"
  by simp

lemma clean_data_fixed:
  assumes "textual d" and "complete (rows d)" and "distinct (map snd (rows d))"
    and "\<forall>r \<in> set (rows d). clean_row spell (object_columns d) (snd r) = snd r"
  shows "clean_data spell d = Inr d"
proof -
  from clean_data_returns [OF assms(1)] obtain d' where d': "clean_data spell d = Inr d'"
    by blast
  have kept: "dropna (drop_duplicates d) = d"
    using assms(2,3) by (simp add: drop_duplicates_id dropna_id)
  have "rows d' = map (\<lambda>r. (fst r, clean_row spell (object_columns d) (snd r))) (rows d)"
    using clean_data_rows(1) [OF d'] by (simp add: kept)
  also have "\<dots> = rows d"
    using assms(4) by (simp add: map_idI)
  finally have "d' = d" using clean_data_rows(2) [OF d'] by (intro frame_eqI) simp_all
  then show ?thesis using d' by simp
qed

lemma clean_data_fixed_only_if:
  assumes "clean_data spell d = Inr d" and "complete (rows d)"
  shows "distinct (map snd (rows d))
    \<and> (\<forall>r \<in> set (rows d). clean_row spell (object_columns d) (snd r) = snd r)"
proof -
  let ?g = "\<lambda>r. (fst r, clean_row spell (object_columns d) (snd r))"
  have "set (keep_first [] (rows d)) \<subseteq> set (rows d)" by (rule keep_first_subset)
  then have "complete (rows (drop_duplicates d))"
    using assms(2) by (auto simp: complete_def drop_duplicates_def)
  then have "dropna (drop_duplicates d) = drop_duplicates d" by (rule dropna_id)
  then have k: "rows (dropna (drop_duplicates d)) = keep_first [] (rows d)"
    by (simp add: drop_duplicates_def)
  have "map ?g (rows (dropna (drop_duplicates d))) = rows d"
    using clean_data_rows(1) [OF assms(1)] by (rule sym)
  then have eq: "map ?g (keep_first [] (rows d)) = rows d"
    by (simp only: k)
  have "length (map ?g (keep_first [] (rows d))) = length (rows d)"
    by (simp only: eq)
  then have "length (keep_first [] (rows d)) = length (rows d)"
    by (simp only: length_map)
  then have full: "keep_first [] (rows d) = rows d" by (rule keep_first_full)
  have "distinct (map snd (keep_first [] (rows d)))"
    by (rule keep_first_distinct)
  then have "distinct (map snd (rows d))"
    by (simp only: full)
  moreover have "map ?g (rows d) = rows d" using eq by (simp only: full)
  then have "map ?g (rows d) = map id (rows d)" by (simp only: list.map_id)
  then have "\<forall>r \<in> set (rows d). ?g r = id r" by (simp only: map_eq_conv)
  then have "\<forall>r \<in> set (rows d). clean_row spell (object_columns d) (snd r) = snd r"
    by (auto dest: arg_cong [where f = snd])
  ultimately show ?thesis by blast
qed

subsection \<open>Invariants after cleaning\<close>

text \<open>
  Claim C2 says that the frame returned by \<^verbatim>\<open>clean_data\<close> has no two equal rows
  and no missing value. The duplicates are removed before the text of the cells is
  rewritten, and the rewriting can make two rows equal: the cells \<^verbatim>\<open>red car\<close> and
  \<^verbatim>\<open>red  car\<close> (two spaces) differ, and both become \<^verbatim>\<open>red car\<close>. So the
  returned frame below holds the same row twice.
\<close>

theorem clean_data_duplicates_after_text:
  "clean_data every_word_known
     \<lparr>columns = [(''car'', Object), (''seats'', Int64)],
      rows = [(0, [S ''red car'', I 4]), (1, [S ''red  car'', I 4])]\<rparr>
   = Inr \<lparr>columns = [(''car'', Object), (''seats'', Int64)],
      rows = [(0, [S ''red car'', I 4]), (1, [S ''red car'', I 4])]\<rparr>
   \<and> \<not> distinct (map snd (rows \<lparr>columns = [(''car'', Object), (''seats'', Int64)],
      rows = [(0, [S ''red car'', I 4]), (1, [S ''red car'', I 4])]\<rparr>))"
  by (simp add: clean_data_unfold)

text \<open>
  Claim C2, as amended. When \<^verbatim>\<open>clean_data\<close> returns a frame, no row of that frame
  holds a missing value, and its rows are, in order and label by label, the rows left by
  \<^verbatim>\<open>drop_duplicates\<close> and \<^verbatim>\<open>dropna\<close> with the cells of the object columns
  rewritten by the text pass (spelling correction word by word, then the character
  filter) and every other cell as it was. The returned frame has no two equal rows
  if and only if the text pass sends no two of the kept rows to the same row. This is so
  in particular when the frame has no object column, and when the text pass changes none
  of the kept rows; in both cases the returned rows are the kept rows themselves.
\<close>

theorem clean_data_rows_and_duplicates:
  assumes "clean_data spell d = Inr d'"
  shows "complete (rows d')
     \<and> columns d' = columns d
     \<and> rows d' = map (\<lambda>r. (fst r, clean_row spell (object_columns d) (snd r)))
                   (rows (dropna (drop_duplicates d)))
     \<and> (distinct (map snd (rows d'))
          \<longleftrightarrow> inj_on (clean_row spell (object_columns d))
                (snd ` set (rows (dropna (drop_duplicates d)))))
     \<and> (object_columns d = [] \<longrightarrow>
          rows d' = rows (dropna (drop_duplicates d)) \<and> distinct (map snd (rows d')))
     \<and> ((\<forall>r \<in> set (rows (dropna (drop_duplicates d))).
            clean_row spell (object_columns d) (snd r) = snd r) \<longrightarrow>
          rows d' = rows (dropna (drop_duplicates d)) \<and> distinct (map snd (rows d')))"
proof -
  let ?kept = "rows (dropna (drop_duplicates d))"
  let ?f = "clean_row spell (object_columns d)"
  have r: "rows d' = map (\<lambda>r. (fst r, ?f (snd r))) ?kept"
    using clean_data_rows(1) [OF assms] .
  have k: "distinct (map snd ?kept)" by (rule distinct_dropna_drop_duplicates)
  have s: "map snd (rows d') = map ?f (map snd ?kept)"
    unfolding r by (simp add: comp_def)
  have "distinct (map ?f (map snd ?kept))
      \<longleftrightarrow> distinct (map snd ?kept) \<and> inj_on ?f (set (map snd ?kept))"
    by (rule distinct_map)
  then have iff: "distinct (map snd (rows d')) \<longleftrightarrow> inj_on ?f (snd ` set ?kept)"
    using k by (simp only: s set_map simp_thms)
  have fixed: "rows d' = ?kept \<and> distinct (map snd (rows d'))"
    if "\<forall>r \<in> set ?kept. ?f (snd r) = snd r"
  proof -
    have "map (\<lambda>r. (fst r, ?f (snd r))) ?kept = ?kept"
      using that by (simp add: map_idI)
    then have "rows d' = ?kept" using r by simp
    then show ?thesis using k by simp
  qed
  have none: "rows d' = ?kept \<and> distinct (map snd (rows d'))" if "object_columns d = []"
  proof -
    have "\<forall>r \<in> set ?kept. ?f (snd r) = snd r"
      using that by (simp add: clean_row_no_columns)
    then show ?thesis by (rule fixed)
  qed
  show ?thesis
    using clean_data_result [OF assms] r iff fixed none by blast
qed

theorem clean_data_rows_and_duplicates_witness:
  "clean_data every_word_known
     \<lparr>columns = [(''car'', Object), (''seats'', Int64)],
      rows = [(0, [S ''red car'', I 4]), (1, [S ''red car'', I 4]), (2, [S ''bus'', I 40]),
              (3, [NaN, I 2])]\<rparr>
   = Inr \<lparr>columns = [(''car'', Object), (''seats'', Int64)],
      rows = [(0, [S ''red car'', I 4]), (2, [S ''bus'', I 40])]\<rparr>
   \<and> complete [(0, [S ''red car'', I 4]), (2, [S ''bus'', I 40])]
   \<and> distinct (map snd [(0 :: nat, [S ''red car'', I 4]), (2, [S ''bus'', I 40])])"
proof -
  let ?d = "\<lparr>columns = [(''car'', Object), (''seats'', Int64)],
      rows = [(0, [S ''red car'', I 4]), (1, [S ''red car'', I 4]), (2, [S ''bus'', I 40]),
              (3, [NaN, I 2])]\<rparr>"
  let ?d' = "\<lparr>columns = [(''car'', Object), (''seats'', Int64)],
      rows = [(0, [S ''red car'', I 4]), (2, [S ''bus'', I 40])]\<rparr>"
  have run: "clean_data every_word_known ?d = Inr ?d'"
    by (simp add: clean_data_unfold)
  have fixed: "\<forall>r \<in> set (rows (dropna (drop_duplicates ?d))).
     clean_row every_word_known (object_columns ?d) (snd r) = snd r"
    by (simp add: clean_data_unfold clean_row_def clean_cell_def)
  have "complete (rows ?d') \<and> distinct (map snd (rows ?d'))"
    using fixed clean_data_rows_and_duplicates [OF run] by blast
  then show ?thesis using run by simp
qed

subsection \<open>Deduplication and completeness\<close>

text \<open>
  Claim C6 says that the rows \<open>[A, B, A]\<close> are cleaned to \<open>[A, B]\<close>. The Cleaner
  keeps the first \<open>A\<close> and \<open>B\<close>, and then rewrites their text: in the first frame
  below \<open>A\<close> holds \<^verbatim>\<open>red  car\<close> (two spaces) and the returned row holds
  \<^verbatim>\<open>red car\<close>, which is not \<open>A\<close>; in the second frame \<open>B\<close> differs from \<open>A\<close>
  by that space only, and the result is \<open>[A, A]\<close>.
\<close>

theorem clean_data_rewrites_kept_rows:
  "clean_data every_word_known
     \<lparr>columns = [(''car'', Object), (''seats'', Int64)],
      rows = [(0, [S ''red  car'', I 4]), (1, [S ''bus'', I 40]), (2, [S ''red  car'', I 4])]\<rparr>
   = Inr \<lparr>columns = [(''car'', Object), (''seats'', Int64)],
      rows = [(0, [S ''red car'', I 4]), (1, [S ''bus'', I 40])]\<rparr>
   \<and> [S ''red car'', I 4] \<noteq> [S ''red  car'', I 4]
   \<and> clean_data every_word_known
     \<lparr>columns = [(''car'', Object), (''seats'', Int64)],
      rows = [(0, [S ''red car'', I 4]), (1, [S ''red  car'', I 4]), (2, [S ''red car'', I 4])]\<rparr>
   = Inr \<lparr>columns = [(''car'', Object), (''seats'', Int64)],
      rows = [(0, [S ''red car'', I 4]), (1, [S ''red car'', I 4])]\<rparr>"
  by (simp add: clean_data_unfold)

text \<open>
  Claim C6, as amended. Of the rows \<open>[A, B, A]\<close>, with \<open>A\<close> and \<open>B\<close> different and
  without a missing value, the Cleaner, when it returns, returns two rows: under the label
  of the first row what the text pass makes of \<open>A\<close>, and under the label of the second
  row what it makes of \<open>B\<close>. The result is \<open>[A, B]\<close> if and only if the text pass
  leaves \<open>A\<close> and \<open>B\<close> as they are, which is so when the frame has no object
  column. The Cleaner returns for every frame whose object columns hold no number. And in
  any frame whose rows have different labels, a row with a missing value has its label
  absent from the cleaned frame.
\<close>

theorem clean_data_keeps_first_of_equal_rows:
  "(rows d = [(i, A), (j, B), (k, A)] \<and> A \<noteq> B \<and> NaN \<notin> set A \<and> NaN \<notin> set B
      \<and> clean_data spell d = Inr d' \<longrightarrow>
        rows d' = [(i, clean_row spell (object_columns d) A),
                   (j, clean_row spell (object_columns d) B)]
        \<and> (rows d' = [(i, A), (j, B)] \<longleftrightarrow>
             clean_row spell (object_columns d) A = A \<and> clean_row spell (object_columns d) B = B)
        \<and> (object_columns d = [] \<longrightarrow> rows d' = [(i, A), (j, B)]))
   \<and> (textual d \<longrightarrow> (\<exists>d''. clean_data spell d = Inr d''))
   \<and> (clean_data spell d = Inr d' \<and> distinct (map fst (rows d)) \<and> (l, r) \<in> set (rows d)
        \<and> NaN \<in> set r
        \<longrightarrow> l \<notin> set (map fst (rows d')))"
proof (intro conjI impI)
  assume h: "rows d = [(i, A), (j, B), (k, A)] \<and> A \<noteq> B \<and> NaN \<notin> set A \<and> NaN \<notin> set B
      \<and> clean_data spell d = Inr d'"
  then have kept: "rows (dropna (drop_duplicates d)) = [(i, A), (j, B)]"
    by (auto simp: drop_duplicates_def dropna_def)
  from h have "clean_data spell d = Inr d'" by simp
  from clean_data_rows(1) [OF this]
  show r: "rows d' = [(i, clean_row spell (object_columns d) A),
                   (j, clean_row spell (object_columns d) B)]"
    by (simp add: kept)
  show "rows d' = [(i, A), (j, B)] \<longleftrightarrow>
      clean_row spell (object_columns d) A = A \<and> clean_row spell (object_columns d) B = B"
    by (simp add: r)
  show "rows d' = [(i, A), (j, B)]" if "object_columns d = []"
    using that by (simp add: r clean_row_no_columns)
next
  assume "textual d"
  then show "\<exists>d''. clean_data spell d = Inr d''" by (rule clean_data_returns)
next
  assume h: "clean_data spell d = Inr d' \<and> distinct (map fst (rows d)) \<and> (l, r) \<in> set (rows d)
    \<and> NaN \<in> set r"
  show "l \<notin> set (map fst (rows d'))"
  proof
    assume "l \<in> set (map fst (rows d'))"
    with clean_data_rows_from [of spell d d'] h
    obtain r' where r': "(l, r') \<in> set (rows d)" "NaN \<notin> set r'" by force
    with h have "r' = r" using eq_key_imp_eq_value by metis
    with r' h show False by simp
  qed
qed

theorem clean_data_keeps_first_of_equal_rows_witness:
  "clean_data every_word_known
     \<lparr>columns = [(''car'', Object), (''seats'', Int64)],
      rows = [(0, [S ''red car'', I 4]), (1, [S ''bus'', I 40]), (2, [S ''red car'', I 4])]\<rparr>
   = Inr \<lparr>columns = [(''car'', Object), (''seats'', Int64)],
      rows = [(0, [S ''red car'', I 4]), (1, [S ''bus'', I 40])]\<rparr>
   \<and> clean_data every_word_known
     \<lparr>columns = [(''car'', Object), (''seats'', Float64)],
      rows = [(0, [S ''red car'', F 4]), (1, [S ''bus'', NaN]), (2, [S ''van'', F 2])]\<rparr>
   = Inr \<lparr>columns = [(''car'', Object), (''seats'', Float64)],
      rows = [(0, [S ''red car'', F 4]), (2, [S ''van'', F 2])]\<rparr>
   \<and> 1 \<notin> set (map fst [(0 :: nat, [S ''red car'', F 4]), (2, [S ''van'', F 2])])"
proof -
  let ?d = "\<lparr>columns = [(''car'', Object), (''seats'', Int64)],
      rows = [(0, [S ''red car'', I 4]), (1, [S ''bus'', I 40]), (2, [S ''red car'', I 4])]\<rparr>"
  let ?d' = "\<lparr>columns = [(''car'', Object), (''seats'', Int64)],
      rows = [(0, [S ''red car'', I 4]), (1, [S ''bus'', I 40])]\<rparr>"
  let ?e = "\<lparr>columns = [(''car'', Object), (''seats'', Float64)],
      rows = [(0, [S ''red car'', F 4]), (1, [S ''bus'', NaN]), (2, [S ''van'', F 2])]\<rparr>"
  let ?e' = "\<lparr>columns = [(''car'', Object), (''seats'', Float64)],
      rows = [(0, [S ''red car'', F 4]), (2, [S ''van'', F 2])]\<rparr>"
  have one: "clean_data every_word_known ?d = Inr ?d'"
    by (simp add: clean_data_unfold)
  have two: "clean_data every_word_known ?e = Inr ?e'"
    by (simp add: clean_data_unfold)
  have h1: "rows ?d = [(0, [S ''red car'', I 4]), (1, [S ''bus'', I 40]), (2, [S ''red car'', I 4])]
    \<and> [S ''red car'', I 4] \<noteq> [S ''bus'', I 40] \<and> NaN \<notin> set [S ''red car'', I 4]
    \<and> NaN \<notin> set [S ''bus'', I 40]"
    by simp
  have fixed: "clean_row every_word_known (object_columns ?d) [S ''red car'', I 4] = [S ''red car'', I 4]
    \<and> clean_row every_word_known (object_columns ?d) [S ''bus'', I 40] = [S ''bus'', I 40]"
    by (simp add: clean_data_unfold clean_row_def clean_cell_def)
  have h2: "distinct (map fst (rows ?e)) \<and> (1, [S ''bus'', NaN]) \<in> set (rows ?e)
    \<and> NaN \<in> set [S ''bus'', NaN]"
    by simp
  have "rows ?d' = [(0, [S ''red car'', I 4]), (1, [S ''bus'', I 40])]"
    using one h1 fixed
      clean_data_keeps_first_of_equal_rows [of ?d 0 "[S ''red car'', I 4]" 1 "[S ''bus'', I 40]" 2
        every_word_known ?d' 1 "[S ''bus'', NaN]"]
    by simp
  moreover have "1 \<notin> set (map fst (rows ?e'))"
    using two h2
      clean_data_keeps_first_of_equal_rows [of ?e 0 "[S ''red car'', I 4]" 1 "[S ''bus'', I 40]" 2
        every_word_known ?e' 1 "[S ''bus'', NaN]"]
    by blast
  ultimately show ?thesis using one two by simp
qed

subsection \<open>Running the Cleaner twice\<close>

text \<open>
  Claim C7 says that the Cleaner, run on its own result, returns it unchanged. Two things
  can go wrong. The first frame below is cleaned to a frame with two equal rows, which the
  text pass has made; a second run drops the second of them. The third frame holds
  \<^verbatim>\<open>red , car\<close>: the comma is a word of its own for \<^verbatim>\<open>split\<close>, so the words
  are rejoined around it, and the character filter then leaves \<^verbatim>\<open>red  car\<close> with
  two spaces; a second run makes \<^verbatim>\<open>red car\<close> of it.
\<close>

theorem clean_data_not_idempotent:
  "clean_data every_word_known
     \<lparr>columns = [(''car'', Object), (''seats'', Int64)],
      rows = [(0, [S ''red car'', I 4]), (1, [S ''red  car'', I 4])]\<rparr>
   = Inr \<lparr>columns = [(''car'', Object), (''seats'', Int64)],
      rows = [(0, [S ''red car'', I 4]), (1, [S ''red car'', I 4])]\<rparr>
   \<and> clean_data every_word_known
     \<lparr>columns = [(''car'', Object), (''seats'', Int64)],
      rows = [(0, [S ''red car'', I 4]), (1, [S ''red car'', I 4])]\<rparr>
   = Inr \<lparr>columns = [(''car'', Object), (''seats'', Int64)],
      rows = [(0, [S ''red car'', I 4])]\<rparr>
   \<and> clean_data every_word_known
     \<lparr>columns = [(''car'', Object), (''seats'', Int64)],
      rows = [(0, [S ''red , car'', I 4])]\<rparr>
   = Inr \<lparr>columns = [(''car'', Object), (''seats'', Int64)],
      rows = [(0, [S ''red  car'', I 4])]\<rparr>
   \<and> clean_data every_word_known
     \<lparr>columns = [(''car'', Object), (''seats'', Int64)],
      rows = [(0, [S ''red  car'', I 4])]\<rparr>
   = Inr \<lparr>columns = [(''car'', Object), (''seats'', Int64)],
      rows = [(0, [S ''red car'', I 4])]\<rparr>"
  by (simp add: clean_data_unfold)

text \<open>
  Claim C7, as amended. When \<^verbatim>\<open>clean_data\<close> has returned a frame, a second run on
  that frame returns too, and it returns the frame unchanged if and only if the frame has
  no two equal rows and the text pass (spelling correction word by word, then the
  character filter) changes no cell of its object columns. This is so whenever the frame
  has no object column.
\<close>

theorem clean_data_twice:
  assumes "clean_data spell d = Inr d'"
  shows "(clean_data spell d' = Inr d'
          \<longleftrightarrow> distinct (map snd (rows d'))
              \<and> (\<forall>r \<in> set (rows d'). clean_row spell (object_columns d) (snd r) = snd r))
     \<and> (\<exists>d''. clean_data spell d' = Inr d'')
     \<and> (object_columns d = [] \<longrightarrow> clean_data spell d' = Inr d')"
proof -
  have t: "textual d'" using assms by (rule clean_data_textual)
  have c: "complete (rows d')" using clean_data_result [OF assms] by simp
  have "columns d' = columns d" using clean_data_rows(2) [OF assms] .
  then have o: "object_columns d' = object_columns d" by (simp add: object_columns_def)
  have iff: "clean_data spell d' = Inr d'
          \<longleftrightarrow> distinct (map snd (rows d'))
              \<and> (\<forall>r \<in> set (rows d'). clean_row spell (object_columns d) (snd r) = snd r)"
    using clean_data_fixed [OF t c, of spell] clean_data_fixed_only_if [OF _ c, of spell]
    unfolding o by blast
  have some: "\<exists>d''. clean_data spell d' = Inr d''" using t by (rule clean_data_returns)
  have none: "clean_data spell d' = Inr d'" if "object_columns d = []"
  proof -
    have "distinct (map snd (rows d'))"
      using clean_data_rows(1) [OF assms] distinct_dropna_drop_duplicates [of d] that
      by (simp add: clean_row_no_columns)
    then show ?thesis using iff that by (simp add: clean_row_no_columns)
  qed
  show ?thesis using iff some none by blast
qed

theorem clean_data_twice_witness:
  "clean_data every_word_known
     \<lparr>columns = [(''car'', Object), (''seats'', Int64)],
      rows = [(0, [S ''red  car'', I 4]), (1, [S ''bus'', I 40]), (2, [S ''red  car'', I 4])]\<rparr>
   = Inr \<lparr>columns = [(''car'', Object), (''seats'', Int64)],
      rows = [(0, [S ''red car'', I 4]), (1, [S ''bus'', I 40])]\<rparr>
   \<and> clean_data every_word_known
     \<lparr>columns = [(''car'', Object), (''seats'', Int64)],
      rows = [(0, [S ''red car'', I 4]), (1, [S ''bus'', I 40])]\<rparr>
   = Inr \<lparr>columns = [(''car'', Object), (''seats'', Int64)],
      rows = [(0, [S ''red car'', I 4]), (1, [S ''bus'', I 40])]\<rparr>"
proof -
  have first: "clean_data every_word_known
     \<lparr>columns = [(''car'', Object), (''seats'', Int64)],
      rows = [(0, [S ''red  car'', I 4]), (1, [S ''bus'', I 40]), (2, [S ''red  car'', I 4])]\<rparr>
   = Inr \<lparr>columns = [(''car'', Object), (''seats'', Int64)],
      rows = [(0, [S ''red car'', I 4]), (1, [S ''bus'', I 40])]\<rparr>"
    by (simp add: clean_data_unfold)
  have fixed: "distinct (map snd (rows \<lparr>columns = [(''car'', Object), (''seats'', Int64)],
      rows = [(0, [S ''red car'', I 4]), (1, [S ''bus'', I 40])]\<rparr>))
    \<and> (\<forall>r \<in> set (rows \<lparr>columns = [(''car'', Object), (''seats'', Int64)],
      rows = [(0, [S ''red car'', I 4]), (1, [S ''bus'', I 40])]\<rparr>).
        clean_row every_word_known (object_columns
          \<lparr>columns = [(''car'', Object), (''seats'', Int64)],
           rows = [(0, [S ''red  car'', I 4]), (1, [S ''bus'', I 40]), (2, [S ''red  car'', I 4])]\<rparr>)
          (snd r) = snd r)"
    by (simp add: clean_data_unfold clean_row_def clean_cell_def)
  show ?thesis
    using first fixed clean_data_twice [OF first] by blast
qed

section \<open>Properties of the Validator\<close>

text \<open>
  Claim C9. \<^verbatim>\<open>check_domain_constraints\<close> is a report only: for every frame, column
  name and list of valid values, the frame is after the call what it was before, and the
  call either prints its report or raises \<^verbatim>\<open>KeyError\<close> (when the frame has no column
  of that name).
\<close>

theorem check_domain_constraints_leaves_data:
  "fst (check_domain_constraints data column_name valid_values) = data
   \<and> snd (check_domain_constraints data column_name valid_values)
        \<in> insert (Inl KeyError) (range Inr)"
  by (simp add: check_domain_constraints_def Let_def split: option.splits)

section \<open>Properties of the Transformer and of the pipeline\<close>

text \<open>An integer of at most 53 binary digits is converted exactly.\<close>

lemma excess_small: "m < 2 ^ 53 \<Longrightarrow> excess m = 0"
  by (subst excess.simps) simp

lemma round_half_even_0: "round_half_even m 0 = m"
  by (simp add: round_half_even_def)

lemma float64_of_int_small: "\<bar>n\<bar> < 2 ^ 53 \<Longrightarrow> float64_of_int n = real_of_int n"
proof -
  assume small: "\<bar>n\<bar> < 2 ^ 53"
  then have "nat \<bar>n\<bar> < 2 ^ 53" by (simp add: nat_less_iff)
  then have "excess (nat \<bar>n\<bar>) = 0" by (rule excess_small)
  then have r: "round_half_even (nat \<bar>n\<bar>) (excess (nat \<bar>n\<bar>)) = nat \<bar>n\<bar>"
    by (simp add: round_half_even_0)
  show ?thesis unfolding float64_of_int_def Let_def r by simp
qed


lemmas transform_unfold =
  transform_data_def scale_numerical_def numerical_columns_def object_columns_def
  column_cells_def scale_column_def present_def List.map_filter_def mean_def variance_def
  scale_of_def is_constant_feature_def float64_of_int_small one_hot_def categories_def
  indicators_def drop_columns_def concat_columns_def reindex_def upt_rec power2_eq_square

text \<open>
  An object column of numbers is encoded by value: 20 and 20.0 are one category, and the
  categories stand in the order of their values. A column of texts and numbers is
  refused.
\<close>

lemma one_hot_of_numbers:
  "one_hot str_whole False
     \<lparr>columns = [(''n'', Object)], rows = [(0, [I 20]), (1, [I 3]), (2, [F 20])]\<rparr>
   = Inr \<lparr>columns = [(''n_3'', Float64), (''n_20'', Float64)],
          rows = [(0, [F 0, F 1]), (1, [F 1, F 0]), (2, [F 0, F 1])]\<rparr>"
  by (simp add: one_hot_def object_columns_def column_cells_def categories_def indicators_def
      List.map_filter_def str_int_def digits.simps upt_rec)

lemma one_hot_of_texts_and_numbers:
  "one_hot str_whole False
     \<lparr>columns = [(''n'', Object)], rows = [(0, [I 20]), (1, [S ''x''])]\<rparr>
   = Inl TypeError"
  by (simp add: one_hot_def object_columns_def column_cells_def upt_rec)

text \<open>
  Claim C1 says that the cleaned frame of the pair returned by \<^verbatim>\<open>perform_analysis\<close>
  is what the Cleaner (and the optional sort) returned, with no numeric column rescaled.
  On the frame below the Cleaner returns the frame as it is, with the ages 1 and 3; the
  cleaned frame that \<^verbatim>\<open>perform_analysis\<close> returns holds the scaled ages -1 and 1,
  because \<^verbatim>\<open>transform_data\<close> has assigned the scaled columns into it. Its textual
  column is untouched.
\<close>

theorem perform_analysis_returns_scaled_cleaned:
  "clean_data every_word_known
     \<lparr>columns = [(''age'', Int64), (''color'', Object)],
      rows = [(0, [I 1, S ''red'']), (1, [I 3, S ''blue''])]\<rparr>
   = Inr \<lparr>columns = [(''age'', Int64), (''color'', Object)],
      rows = [(0, [I 1, S ''red'']), (1, [I 3, S ''blue''])]\<rparr>
   \<and> perform_analysis every_word_known insertion_argsort str_float False
     \<lparr>columns = [(''age'', Int64), (''color'', Object)],
      rows = [(0, [I 1, S ''red'']), (1, [I 3, S ''blue''])]\<rparr>
   = ([], Inr (\<lparr>columns = [(''age'', Float64), (''color'', Object)],
                 rows = [(0, [F (- 1), S ''red'']), (1, [F 1, S ''blue''])]\<rparr>,
               \<lparr>columns = [(''age'', Float64), (''color_blue'', Float64), (''color_red'', Float64)],
                 rows = [(0, [F (- 1), F 0, F 1]), (1, [F 1, F 1, F 0])]\<rparr>))"
proof -
  have cleaned: "clean_data every_word_known
     \<lparr>columns = [(''age'', Int64), (''color'', Object)],
      rows = [(0, [I 1, S ''red'']), (1, [I 3, S ''blue''])]\<rparr>
   = Inr \<lparr>columns = [(''age'', Int64), (''color'', Object)],
      rows = [(0, [I 1, S ''red'']), (1, [I 3, S ''blue''])]\<rparr>"
    by (simp add: clean_data_unfold)
  have transformed: "transform_data str_float False
     \<lparr>columns = [(''age'', Int64), (''color'', Object)],
      rows = [(0, [I 1, S ''red'']), (1, [I 3, S ''blue''])]\<rparr>
   = (\<lparr>columns = [(''age'', Float64), (''color'', Object)],
                 rows = [(0, [F (- 1), S ''red'']), (1, [F 1, S ''blue''])]\<rparr>,
      Inr \<lparr>columns = [(''age'', Float64), (''color_blue'', Float64), (''color_red'', Float64)],
                 rows = [(0, [F (- 1), F 0, F 1]), (1, [F 1, F 1, F 0])]\<rparr>)"
    by (simp add: transform_unfold)
  show ?thesis
    using cleaned transformed by (simp add: perform_analysis_def)
qed

text \<open>
  Claim C3 says that row \<open>i\<close> of the transformed frame carries the indicator values of
  row \<open>i\<close> of the input. The frame below has the index labels 0 and 2, as the Cleaner
  leaves them when it drops the row labelled 1. The frame of the indicator columns is
  built with the labels 0 and 1, and \<^verbatim>\<open>pd.concat\<close> matches rows by label: the
  transformed frame has three rows, the row labelled 2 (the second row of the input, with
  the color \<^verbatim>\<open>blue\<close>) has missing values in both indicator columns, and the
  indicators of that row stand in a row labelled 1 with a missing age.
\<close>

theorem transform_data_misaligns_rows:
  "(case snd (transform_data str_float False
        \<lparr>columns = [(''age'', Int64), (''color'', Object)],
         rows = [(0, [I 1, S ''red'']), (2, [I 3, S ''blue''])]\<rparr>) of
      Inl e \<Rightarrow> False
    | Inr transformed_data \<Rightarrow>
        columns transformed_data
          = [(''age'', Float64), (''color_blue'', Float64), (''color_red'', Float64)]
        \<and> length (rows transformed_data) = 3
        \<and> map_of (rows transformed_data) 0 = Some [F (- 1), F 0, F 1]
        \<and> map_of (rows transformed_data) 2 = Some [F 1, NaN, NaN]
        \<and> map_of (rows transformed_data) 1 = Some [NaN, F 1, F 0])"
  by (simp add: transform_unfold)

section \<open>Properties of the API loader\<close>

text \<open>
  Where \<^verbatim>\<open>load_api\<close> fails softly: on a timeout, on another exception of the
  request, on a status other than 200, and on a dictionary without the key
  \<^verbatim>\<open>data\<close> it prints a diagnostic and returns \<^verbatim>\<open>None\<close>; on a dictionary with
  the key it hands the value to the frame constructor.
\<close>

lemma load_api_soft_failures:
  "get url = Timeout \<Longrightarrow> load_api get DataFrame url = ([RequestTimedOut], Inr None)"
  "get url = RequestException e \<Longrightarrow> load_api get DataFrame url = ([ErrorOccurred e], Inr None)"
  "get url = Response status text body \<Longrightarrow> status \<noteq> 200 \<Longrightarrow>
     load_api get DataFrame url = ([RequestFailedWithStatus status, ResponseText text], Inr None)"
  "get url = Response 200 text (Some (JDict items)) \<Longrightarrow> ''data'' \<notin> set (map fst items) \<Longrightarrow>
     load_api get DataFrame url = ([UnexpectedResponseStructure], Inr None)"
  "get url = Response 200 text (Some (JDict items)) \<Longrightarrow> map_of (rev items) ''data'' = Some v \<Longrightarrow>
     DataFrame v = Inr frame \<Longrightarrow>
     load_api get DataFrame url = ([], Inr (Some frame))"
proof -
  show "get url = Timeout \<Longrightarrow> load_api get DataFrame url = ([RequestTimedOut], Inr None)"
    by (simp add: load_api_def)
  show "get url = RequestException e \<Longrightarrow>
      load_api get DataFrame url = ([ErrorOccurred e], Inr None)"
    by (simp add: load_api_def)
  show "get url = Response status text body \<Longrightarrow> status \<noteq> 200 \<Longrightarrow>
      load_api get DataFrame url = ([RequestFailedWithStatus status, ResponseText text], Inr None)"
    by (simp add: load_api_def)
  show "get url = Response 200 text (Some (JDict items)) \<Longrightarrow> ''data'' \<notin> set (map fst items) \<Longrightarrow>
      load_api get DataFrame url = ([UnexpectedResponseStructure], Inr None)"
    by (simp add: load_api_def)
  assume r: "get url = Response 200 text (Some (JDict items))"
    and v: "map_of (rev items) ''data'' = Some v" and f: "DataFrame v = Inr frame"
  from v have "(''data'', v) \<in> set items" using map_of_SomeD by fastforce
  then have "''data'' \<in> fst ` set items" by force
  then show "load_api get DataFrame url = ([], Inr (Some frame))"
    using r v f by (simp add: load_api_def)
qed

text \<open>
  Claim C5 says that \<^verbatim>\<open>load_api\<close> never raises on a response with the status 200
  whose JSON body has no key \<^verbatim>\<open>data\<close>. A body that is the JSON document
  \<^verbatim>\<open>null\<close> has no such key; \<^verbatim>\<open>response.json()\<close> returns \<^verbatim>\<open>None\<close>, the test
  \<^verbatim>\<open>'data' in data\<close> raises \<^verbatim>\<open>TypeError\<close>, which neither \<^verbatim>\<open>except\<close> clause
  catches, and nothing is printed. A body that is a number does the same.
\<close>

theorem load_api_raises_on_null_body:
  "load_api answers_null no_frame ''http://localhost/api'' = ([], Inl TypeError)
   \<and> load_api answers_five no_frame ''http://localhost/api'' = ([], Inl TypeError)"
  by (simp add: load_api_def answers_null_def answers_five_def)

section \<open>Properties of the standard scaling\<close>

subsection \<open>Mean and variance of a scaled list\<close>

lemma present_Nil [simp]: "present [] = []"
  by (simp add: present_def List.map_filter_def)















subsection \<open>The scaled columns, through the steps of the Transformer\<close>

lemma widths_scale_column: "widths (scale_column j rs) = widths rs"
  by (simp add: widths_def scale_column_def Let_def)

lemma widths_fold: "widths (fold scale_column js rs) = widths rs"
  by (induction js arbitrary: rs) (simp_all add: widths_scale_column)

lemma labels_scale_column: "map fst (scale_column j rs) = map fst rs"
  by (simp add: scale_column_def Let_def comp_def)

lemma labels_fold: "map fst (fold scale_column js rs) = map fst rs"
  by (induction js arbitrary: rs) (simp_all add: labels_scale_column)





lemma scale_numerical_Inr:
  assumes "scale_numerical d = Inr d1"
  shows "rows d1 = fold scale_column (numerical_columns d) (rows d)"
    and "columns d1 = map (\<lambda>c. (fst c, if snd c = Object then Object else Float64)) (columns d)"
    and "\<forall>j \<in> set (numerical_columns d). \<forall>c \<in> set (column_cells j (rows d)). is_text c = False"
  using assms by (auto simp: scale_numerical_def Let_def split: if_splits)

lemma kept_columns:
  assumes "columns d1 = map (\<lambda>c. (fst c, if snd c = Object then Object else Float64)) (columns d)"
  shows "filter (\<lambda>j. j \<notin> set (object_columns d1)) [0..<length (columns d1)] = numerical_columns d"
proof -
  have "(j \<notin> set (object_columns d1)) = (snd (columns d ! j) = Float64 \<or> snd (columns d ! j) = Int64)"
    if "j < length (columns d)" for j
    using assms that by (cases "snd (columns d ! j)") (auto simp: object_columns_def)
  note key = this
  have len: "length (columns d1) = length (columns d)" using assms by simp
  show ?thesis
    unfolding numerical_columns_def len by (rule filter_cong) (use key in auto)
qed

lemma drop_columns_rows:
  "rows (drop_columns cols d) =
     map (\<lambda>r. (fst r, map (\<lambda>j. snd r ! j)
       (filter (\<lambda>j. j \<notin> set cols) [0..<length (columns d)]))) (rows d)"
  and drop_columns_columns:
  "columns (drop_columns cols d) =
     map (\<lambda>j. columns d ! j) (filter (\<lambda>j. j \<notin> set cols) [0..<length (columns d)])"
  by (simp_all add: drop_columns_def Let_def)






subsection \<open>The columns of the transformed frame\<close>




subsection \<open>Rows of the transformed frame when the index is 0, 1, 2, ...\<close>

text \<open>
  When the rows of the input carry the labels \<open>0, 1, 2, \<dots>\<close> in this order, the
  concatenation pairs the rows as they stand: every row of the transformed frame holds
  the scaled numeric cells of the row of the same position, followed by its indicators.
\<close>

lemma one_hot_rows:
  assumes "one_hot str_float rejects_empty d1 = Inr b"
  shows "rows b = zip [0..<length (rows d1)]
           (map (\<lambda>r. concat (map (\<lambda>j. indicators (categories (column_cells j (rows d1))) (snd r ! j))
                                (object_columns d1)))
              (rows d1))"
  using assms by (auto simp: one_hot_def Let_def split: if_splits)

lemma transform_data_aligned:
  assumes t: "transform_data str_float rejects_empty d = (d1, Inr out)"
    and labels: "map fst (rows d) = [0..<length (rows d)]"
  shows "rows out =
     map (\<lambda>r. (fst r,
                map (\<lambda>j. snd r ! j) (numerical_columns d)
                @ concat (map (\<lambda>j. indicators (categories (column_cells j (rows d1))) (snd r ! j))
                            (object_columns d1))))
       (rows d1)"
    and "map fst (rows d1) = map fst (rows d)"
proof -
  from t obtain b where s: "scale_numerical d = Inr d1"
    and oh: "one_hot str_float rejects_empty d1 = Inr b"
    and c: "concat_columns (drop_columns (object_columns d1) d1) b = Inr out"
    by (auto simp: transform_data_def split: sum.splits)
  let ?a = "drop_columns (object_columns d1) d1"
  note sn = scale_numerical_Inr [OF s]
  have kept: "filter (\<lambda>j. j \<notin> set (object_columns d1)) [0..<length (columns d1)]
      = numerical_columns d"
    using kept_columns [OF sn(2)] .
  show l1: "map fst (rows d1) = map fst (rows d)"
    by (simp add: sn(1) labels_fold)
  have len: "length (rows d1) = length (rows d)" using l1 length_map by metis
  have rows_a: "rows ?a = map (\<lambda>r. (fst r, map (\<lambda>j. snd r ! j) (numerical_columns d))) (rows d1)"
    using drop_columns_rows [of "object_columns d1" d1] by (simp only: kept)
  let ?ind = "\<lambda>r. concat (map (\<lambda>j. indicators (categories (column_cells j (rows d1))) (snd r ! j))
                                (object_columns d1))"
  have rows_b: "rows b = zip [0..<length (rows d1)] (map ?ind (rows d1))"
    using one_hot_rows [OF oh] .
  have la: "map fst (rows ?a) = [0..<length (rows d)]"
    using l1 labels by (simp add: rows_a comp_def)
  have lb: "map fst (rows b) = [0..<length (rows d)]"
    by (simp add: rows_b len)
  have "rows out = map (\<lambda>(r, s). (fst r, snd r @ snd s)) (zip (rows ?a) (rows b))"
    using c la lb by (auto simp: concat_columns_def Let_def)
  also have "\<dots> = map (\<lambda>r. (fst r, map (\<lambda>j. snd r ! j) (numerical_columns d) @ ?ind r)) (rows d1)"
    unfolding rows_a rows_b
    by (rule nth_equalityI) (simp_all add: len)
  finally show "rows out =
     map (\<lambda>r. (fst r, map (\<lambda>j. snd r ! j) (numerical_columns d) @ ?ind r)) (rows d1)" .
qed

end
